theory Spec2Isabelle
  imports Main
begin

section \<open>Python dictionaries\<close>

text \<open>
  A Python \<open>dict\<close> keeps its keys in insertion order, so it is an association list
  whose keys are distinct. \<open>dict_get\<close> is \<open>d.get(k)\<close> (\<open>None\<close> when the key is
  missing), \<open>dict_set\<close> is \<open>d[k] = v\<close> (an existing key keeps its position, a new
  key goes to the end), \<open>dict_update\<close> is \<open>d.update(e)\<close> and \<open>dict_of\<close> is
  \<open>dict(pairs)\<close>.
\<close>

type_synonym ('k, 'v) pydict = "('k \<times> 'v) list"

fun dict_get :: "('k, 'v) pydict \<Rightarrow> 'k \<Rightarrow> 'v option" where
  "dict_get [] k = None"
| "dict_get ((k', v) # d) k = (if k' = k then Some v else dict_get d k)"

fun dict_set :: "('k, 'v) pydict \<Rightarrow> 'k \<Rightarrow> 'v \<Rightarrow> ('k, 'v) pydict" where
  "dict_set [] k v = [(k, v)]"
| "dict_set ((k', v') # d) k v = (if k' = k then (k, v) # d else (k', v') # dict_set d k v)"

definition dict_keys :: "('k, 'v) pydict \<Rightarrow> 'k list" where
  "dict_keys d = map fst d"

definition dict_update :: "('k, 'v) pydict \<Rightarrow> ('k, 'v) pydict \<Rightarrow> ('k, 'v) pydict" where
  "dict_update d e = fold (\<lambda>(k, v) acc. dict_set acc k v) e d"

definition dict_of :: "('k \<times> 'v) list \<Rightarrow> ('k, 'v) pydict" where
  "dict_of pairs = dict_update [] pairs"

section \<open>The validator registry (\<open>valdation_functions.py\<close>)\<close>

datatype mode = Before | After | Wrap | Plain

text \<open>A function object: its \<open>__name__\<close> and an identity for its code.\<close>

datatype callable = Callable (dunder_name: string) (code_id: nat)

datatype path_item = PStr string | PInt int

record RootValidator =
  func :: callable
  mode :: mode

record FieldValidator = RootValidator +
  check_fields :: bool
  sub_path :: "path_item list option"

record ValidationFunctions =
  field_validators :: "(string, FieldValidator list) pydict"
  all_fields_validators :: "FieldValidator list"
  root_validators :: "RootValidator list"
  used_validators :: "string set"

text \<open>\<open>ValidationFunctions.__init__\<close>\<close>

definition init_registry :: ValidationFunctions where
  "init_registry =
     \<lparr>field_validators = [], all_fields_validators = [], root_validators = [],
      used_validators = {}\<rparr>"

text \<open>
  \<open>inherit\<close>: the body of the loop over \<open>parent._field_validators.items()\<close>. The
  assignment of \<open>existing + v\<close> under the \<open>if\<close> is followed by the unconditional
  assignment of \<open>v[:]\<close>.
\<close>

definition inherit_item ::
  "string \<times> FieldValidator list \<Rightarrow> (string, FieldValidator list) pydict \<Rightarrow>
   (string, FieldValidator list) pydict" where
  "inherit_item kv d =
     (case kv of (k, v) \<Rightarrow>
        let existing = dict_get d k;
            d1 = (case existing of
                    None \<Rightarrow> d
                  | Some e \<Rightarrow> if e \<noteq> [] then dict_set d k (e @ v) else d)
        in dict_set d1 k v)"

definition inherit :: "ValidationFunctions \<Rightarrow> ValidationFunctions \<Rightarrow> ValidationFunctions" where
  "inherit self parent =
     self\<lparr>field_validators := fold inherit_item (field_validators parent) (field_validators self),
          all_fields_validators := all_fields_validators parent @ all_fields_validators self,
          root_validators := root_validators parent @ root_validators self\<rparr>"

text \<open>
  The argument of \<open>extract_validator\<close> is any object; the function reads its two tag
  attributes with \<open>getattr(value, TAG, None)\<close>.
\<close>

record tagged_value =
  field_validator_tag :: "(string list \<times> FieldValidator) option"
  root_validator_tag :: "RootValidator option"

text \<open>The body of the loop \<open>for field_name in fields\<close> (the tuple \<open>fields\<close> is
  \<open>field_names\<close> below).\<close>

definition register_field ::
  "FieldValidator \<Rightarrow> string \<Rightarrow> (string, FieldValidator list) pydict \<Rightarrow>
   (string, FieldValidator list) pydict" where
  "register_field validator field_name d =
     (case dict_get d field_name of
        None \<Rightarrow> dict_set d field_name [validator]
      | Some this_field_validators \<Rightarrow>
          if this_field_validators \<noteq> []
          then dict_set d field_name (this_field_validators @ [validator])
          else dict_set d field_name [validator])"

text \<open>
  \<open>extract_validator\<close> returns its boolean and the registry after the call. The second
  test reads \<open>f_validator\<close> again, as the source does.
\<close>

definition extract_validator ::
  "ValidationFunctions \<Rightarrow> tagged_value \<Rightarrow> bool \<times> ValidationFunctions" where
  "extract_validator self val =
     (let f_validator = field_validator_tag val in
      case f_validator of
        Some (field_names, validator) \<Rightarrow>
          (True, self\<lparr>field_validators :=
                         fold (register_field validator) field_names (field_validators self)\<rparr>)
      | None \<Rightarrow>
          (let r_validator = root_validator_tag val in
           if f_validator \<noteq> None
           then (True, self\<lparr>root_validators := root_validators self @
                           (case r_validator of None \<Rightarrow> [] | Some r \<Rightarrow> [r])\<rparr>)
           else (False, self)))"

text \<open>
  \<open>get_field_validators\<close> returns the list and the registry after the call. When the
  name is a key, \<open>validators\<close> is the stored list object and \<open>+=\<close> extends it in
  place, so the table holds the extended list afterwards; otherwise \<open>validators\<close>
  is the fresh default \<open>[]\<close>.
\<close>

definition get_field_validators ::
  "ValidationFunctions \<Rightarrow> string \<Rightarrow> FieldValidator list \<times> ValidationFunctions" where
  "get_field_validators self name =
     (let self1 = self\<lparr>used_validators := insert name (used_validators self)\<rparr> in
      case dict_get (field_validators self1) name of
        None \<Rightarrow> ([] @ all_fields_validators self1, self1)
      | Some stored \<Rightarrow>
          (let validators = stored @ all_fields_validators self1
           in (validators,
               self1\<lparr>field_validators := dict_set (field_validators self1) name validators\<rparr>)))"

datatype config_error = ConfigError "string set"

text \<open>
  \<open>check_for_unused\<close>: the error carries the set of function names that the message
  joins. Every \<open>f\<close> of the difference is a key, so the lookup finds its list.
\<close>

definition unused_validators :: "ValidationFunctions \<Rightarrow> string set" where
  "unused_validators self =
     set (concat (map (\<lambda>f. map (\<lambda>v. dunder_name (func v))
                               (filter check_fields
                                  (case dict_get (field_validators self) f of
                                     None \<Rightarrow> [] | Some vs \<Rightarrow> vs)))
                      (filter (\<lambda>f. f \<notin> used_validators self)
                              (dict_keys (field_validators self)))))"

definition check_for_unused :: "ValidationFunctions \<Rightarrow> config_error + unit" where
  "check_for_unused self =
     (if unused_validators self \<noteq> {} then Inl (ConfigError (unused_validators self))
      else Inr ())"

subsection \<open>Notions used to state the registry's properties\<close>

text \<open>The list stored for a field name, empty when the name is not a key.\<close>

definition stored :: "(string, FieldValidator list) pydict \<Rightarrow> string \<Rightarrow> FieldValidator list" where
  "stored d f = (case dict_get d f of None \<Rightarrow> [] | Some vs \<Rightarrow> vs)"

text \<open>A schema's own registrations: \<open>extract_validator\<close> called on each value in turn.\<close>

definition extract_all :: "ValidationFunctions \<Rightarrow> tagged_value list \<Rightarrow> ValidationFunctions" where
  "extract_all self vals = fold (\<lambda>v s. snd (extract_validator s v)) vals self"

text \<open>
  The field validators that a list of tagged values declares for the field \<open>f\<close>, in the
  order of the declarations (a value names a field once per occurrence in its tuple).
\<close>

definition own_validators :: "tagged_value list \<Rightarrow> string \<Rightarrow> FieldValidator list" where
  "own_validators vals f =
     concat (map (\<lambda>v. case field_validator_tag v of
                         None \<Rightarrow> []
                       | Some (field_names, validator) \<Rightarrow>
                           map (\<lambda>_. validator) (filter (\<lambda>n. n = f) field_names)) vals)"

subsection \<open>Example registries\<close>

definition mk_validator :: "string \<Rightarrow> nat \<Rightarrow> bool \<Rightarrow> FieldValidator" where
  "mk_validator n i chk =
     \<lparr>func = Callable n i, mode = After, check_fields = chk, sub_path = None\<rparr>"

definition mk_root :: "string \<Rightarrow> nat \<Rightarrow> RootValidator" where
  "mk_root n i = \<lparr>func = Callable n i, mode = After\<rparr>"

definition parent_registry :: ValidationFunctions where
  "parent_registry =
     \<lparr>field_validators = [(''x'', [mk_validator ''parent_x'' 1 True])],
      all_fields_validators = [mk_validator ''parent_all'' 2 True],
      root_validators = [mk_root ''parent_root'' 3],
      used_validators = {}\<rparr>"

definition child_registry :: ValidationFunctions where
  "child_registry =
     \<lparr>field_validators = [],
      all_fields_validators = [mk_validator ''child_all'' 4 True],
      root_validators = [mk_root ''child_root'' 5],
      used_validators = {}\<rparr>"

definition child_decl :: tagged_value where
  "child_decl =
     \<lparr>field_validator_tag = Some ([''x''], mk_validator ''child_x'' 6 True),
      root_validator_tag = None\<rparr>"

definition mixed_registry :: ValidationFunctions where
  "mixed_registry =
     \<lparr>field_validators = [(''x'', [mk_validator ''check_x'' 1 True])],
      all_fields_validators = [mk_validator ''check_all'' 2 True],
      root_validators = [],
      used_validators = {}\<rparr>"

text \<open>
  A registry with validators for three names, of which only \<open>a\<close> has been resolved:
  \<open>b\<close> carries one entry with field checking and one without, \<open>c\<close> only one without.
\<close>

definition unused_registry :: ValidationFunctions where
  "unused_registry =
     \<lparr>field_validators =
        [(''a'', [mk_validator ''check_a'' 1 True]),
         (''b'', [mk_validator ''check_b'' 2 True, mk_validator ''loose_b'' 3 False]),
         (''c'', [mk_validator ''loose_c'' 4 False])],
      all_fields_validators = [],
      root_validators = [mk_root ''check_root'' 5],
      used_validators = {''a''}\<rparr>"

section \<open>Values and model instances (\<open>main.py\<close>)\<close>

text \<open>
  The Python values that the instance engine stores and projects: \<open>None\<close>, booleans,
  integers, strings, members of classes that derive from \<open>Enum\<close> alone (their name and
  their \<open>.value\<close>, an integer or a string; a member of \<open>IntEnum\<close> or of another
  class mixed with a data type is a value of that type as well and is outside the
  values below), dictionaries, sequences that are rebuilt as their own kind
  (\<open>list\<close>, \<open>tuple\<close>, and named tuples whose fields have no defaults) and
  instances of \<open>BaseModel\<close> subclasses. An instance holds the name of its class, its
  \<open>__dict__\<close> (the field values), its \<open>__fields_set__\<close> and the values of its private
  attributes.
\<close>

datatype seq_kind = ListKind | TupleKind | NamedTupleKind string

datatype enum_value = EnumInt int | EnumStr string

datatype val =
    VNone
  | VBool bool
  | VInt int
  | VStr string
  | VEnum string enum_value
  | VDict "(val \<times> val) list"
  | VSeq seq_kind "val list"
  | VModel model
and model =
  Model (cls_name: string) (dunder_dict: "(string \<times> val) list")
           (fields_set: "string list") (private_values: "(string \<times> val) list")

text \<open>The \<open>.value\<close> of an enumeration member, as a value.\<close>

definition value_of :: "enum_value \<Rightarrow> val" where
  "value_of u = (case u of EnumInt i \<Rightarrow> VInt i | EnumStr s \<Rightarrow> VStr s)"

lemma size_dunder_dict: "size_list (size_prod (\<lambda>x. 0) size) (dunder_dict self) < size self"
  by (cases self) simp

subsection \<open>Include and exclude specifications\<close>

text \<open>
  Modelled from the spec: \<open>ValueItems\<close> lives in \<open>pydantic/utils.py\<close>, which is not
  among the sources. The spec describes \<open>include\<close> and \<open>exclude\<close> as a per-key
  specification in which a key mapped to \<open>True\<close> or the sentinel means "fully
  include/exclude" and a key mapped to a nested specification recurses; a nested exclude
  specification does not remove the key itself, and an absent sub-specification means no
  further restriction. \<open>is_true\<close> recognises the marker, \<open>is_excluded\<close> holds for
  a key mapped to the marker, \<open>is_included\<close> for a key that is present, and
  \<open>for_element\<close> gives the nested specification of a key, if it has one.
\<close>

datatype item = Ellipsis | Nested "(val \<times> item) list"

type_synonym items = "(val \<times> item) list"

definition is_true :: "item \<Rightarrow> bool" where
  "is_true v = (v = Ellipsis)"

definition is_excluded :: "items \<Rightarrow> val \<Rightarrow> bool" where
  "is_excluded its e = (case dict_get its e of None \<Rightarrow> False | Some i \<Rightarrow> is_true i)"

definition is_included :: "items \<Rightarrow> val \<Rightarrow> bool" where
  "is_included its e = (e \<in> set (dict_keys its))"

definition for_element :: "items \<Rightarrow> val \<Rightarrow> items option" where
  "for_element its e =
     (case dict_get its e of
        None \<Rightarrow> None
      | Some Ellipsis \<Rightarrow> None
      | Some (Nested sub) \<Rightarrow> Some sub)"

text \<open>
  The truth value of an \<open>Optional\<close> specification, as in \<open>ValueItems(v, exclude) if
  exclude else None\<close>: \<open>None\<close> and the empty mapping are false.
\<close>

definition truthy_items :: "items option \<Rightarrow> items option" where
  "truthy_items its = (case its of None \<Rightarrow> None | Some [] \<Rightarrow> None | Some (x # xs) \<Rightarrow> its)"

subsection \<open>Field descriptors, configuration and classes\<close>

text \<open>
  The field descriptors are built by \<open>pydantic/fields.py\<close> and the configuration by
  \<open>pydantic/config.py\<close>; neither is among the sources, so a class is given by the
  attributes that \<open>main.py\<close> reads from them: of a field its \<open>alias\<close>,
  \<open>alt_alias\<close>, \<open>required\<close>, \<open>default\<close>, \<open>final\<close>,
  \<open>field_info.allow_mutation\<close> and its \<open>validate\<close> method (which returns the
  validated value and an optional error); of the configuration \<open>extra is Extra.allow\<close>,
  \<open>allow_mutation\<close>, \<open>frozen\<close>, \<open>validate_assignment\<close> and
  \<open>use_enum_values\<close>. A private attribute is given by what its \<open>get_default()\<close>
  returns (\<open>None\<close> for \<open>Undefined\<close>).
\<close>

record ModelField =
  field_alias :: string
  alt_alias :: bool
  required :: bool
  default_value :: val
  default_factory :: "val option"
  final :: bool
  field_allow_mutation :: bool
  validate :: "val \<Rightarrow> (string, val) pydict \<Rightarrow> val \<times> string option"

text \<open>
  Modelled from the spec: \<open>get_default\<close> is a method of the descriptor in
  \<open>pydantic/fields.py\<close>. The spec has a field's default be "value or factory":
  the value the factory produces when the field declares one, the declared default
  otherwise.
\<close>

definition get_default :: "ModelField \<Rightarrow> val" where
  "get_default f = (case default_factory f of None \<Rightarrow> default_value f | Some v \<Rightarrow> v)"

record config =
  extra_allow :: bool
  allow_mutation :: bool
  frozen :: bool
  validate_assignment :: bool
  use_enum_values :: bool

record model_class =
  dunder_fields :: "(string, ModelField) pydict"
  private_attributes :: "(string, val option) pydict"
  dunder_config :: config

text \<open>
  What the functions of \<open>main.py\<close> read from their surroundings: the classes by
  name, and the constants \<open>DUNDER_ATTRIBUTES\<close> and \<open>ROOT_KEY\<close> that
  \<open>main.py\<close> imports from \<open>pydantic/utils.py\<close>.
\<close>

record env =
  classes :: "string \<Rightarrow> model_class"
  DUNDER_ATTRIBUTES :: "string list"
  ROOT_KEY :: string

text \<open>
  The exceptions that \<open>main.py\<close> raises: \<open>NameError\<close> for a global name that
  is not bound, the \<open>ValueError\<close> and the three \<open>TypeError\<close>s of
  \<open>__setattr__\<close> (with the class and field names of their messages),
  \<open>ValidationError\<close> with its list of errors, and the two \<open>TypeError\<close>s of a
  call: a named tuple class called with fewer arguments than it has fields, and a
  keyword argument that names a parameter which already has a value.
\<close>

datatype py_error =
    NameError string
  | ValueError_no_field string string
  | TypeError_immutable string
  | TypeError_final string string
  | TypeError_allow_mutation string
  | ValidationError string "string list"
  | TypeError_arguments string
  | TypeError_multiple_values string

subsection \<open>Projection: \<open>_calculate_keys\<close>, \<open>_iter\<close>, \<open>_get_value\<close>, \<open>dict\<close>, \<open>copy\<close>\<close>

text \<open>The boolean keyword arguments that \<open>_iter\<close> and \<open>_get_value\<close> pass on.\<close>

record flags =
  to_dict :: bool
  by_alias :: bool
  exclude_unset :: bool
  exclude_defaults :: bool
  exclude_none :: bool

definition no_flags :: flags where
  "no_flags =
     \<lparr>to_dict = False, by_alias = False, exclude_unset = False, exclude_defaults = False,
      exclude_none = False\<rparr>"

text \<open>
  \<open>_calculate_keys\<close>: \<open>None\<close> when nothing restricts the keys, otherwise the set of
  allowed keys (as a list).
\<close>

definition calculate_keys ::
  "model \<Rightarrow> items option \<Rightarrow> items option \<Rightarrow> bool \<Rightarrow> (string, val) pydict option \<Rightarrow>
   string list option" where
  "calculate_keys self include exclude excl_unset update =
     (if include = None \<and> exclude = None \<and> excl_unset = False then None
      else
        let keys0 = (if excl_unset then fields_set self else dict_keys (dunder_dict self));
            keys1 = (case include of
                       None \<Rightarrow> keys0
                     | Some inc \<Rightarrow> filter (\<lambda>k. VStr k \<in> set (dict_keys inc)) keys0);
            keys2 = (case update of
                       None \<Rightarrow> keys1
                     | Some [] \<Rightarrow> keys1
                     | Some (u # us) \<Rightarrow> filter (\<lambda>k. k \<notin> set (dict_keys (u # us))) keys1);
            keys3 = (case truthy_items exclude of
                       None \<Rightarrow> keys2
                     | Some exc \<Rightarrow>
                         filter (\<lambda>k. VStr k \<notin> set (map fst (filter (\<lambda>(k', v). is_true v) exc))) keys2)
        in Some keys3)"

text \<open>
  \<open>_copy_and_set_values\<close>: a new instance of the same class with the given values and
  \<open>fields_set\<close>, and the private attributes of \<open>self\<close> that are set. Values
  are immutable here, so a deep copy of a value is the value.
\<close>

definition copy_and_set_values ::
  "env \<Rightarrow> model \<Rightarrow> (string, val) pydict \<Rightarrow> string list \<Rightarrow> bool \<Rightarrow> model" where
  "copy_and_set_values E self vals fs deep =
     Model (cls_name self) vals fs
       (fold (\<lambda>name acc. case dict_get (private_values self) name of
                            None \<Rightarrow> acc
                          | Some v \<Rightarrow> dict_set acc name v)
             (dict_keys (private_attributes (classes E (cls_name self)))) [])"

text \<open>
  \<open>_get_value\<close>, \<open>dict\<close>, \<open>copy\<close> and \<open>_iter\<close> call each other.
  \<open>iter_loop\<close> is the loop of \<open>_iter\<close> over \<open>self.__dict__.items()\<close>,
  \<open>get_value_items\<close> the dictionary comprehension of \<open>_get_value\<close> and
  \<open>get_value_seq\<close> its generator over \<open>enumerate(v)\<close>. A generator that raises
  makes its consumer raise, so each returns either the exception or all it yields.

  A sequence is rebuilt from the elements that pass the filters: a list or a tuple by
  \<open>v.__class__(seq_args)\<close>, a named tuple by \<open>v.__class__(*seq_args)\<close>, which
  raises \<open>TypeError\<close> when an element was filtered out, since every field of the
  class needs its argument.

  With \<open>exclude_defaults\<close> set, \<open>_iter\<close> evaluates, for a field that is not
  required, \<open>getattr(model_field, 'default', _missing) == v\<close>. The module binds no
  name \<open>_missing\<close> (it is neither assigned nor imported anywhere in \<open>main.py\<close>),
  so evaluating the arguments of that call raises \<open>NameError\<close> before the
  comparison takes place. For a required field, and for a key that is not a field, the
  first operand of \<open>and\<close> is false and the second is not evaluated.
\<close>

function (sequential)
  get_value :: "env \<Rightarrow> string \<Rightarrow> flags \<Rightarrow> items option \<Rightarrow> items option \<Rightarrow> val \<Rightarrow> py_error + val"
and model_dict :: "env \<Rightarrow> model \<Rightarrow> items option \<Rightarrow> items option \<Rightarrow> flags \<Rightarrow> bool option \<Rightarrow>
      py_error + (string, val) pydict"
and model_copy :: "env \<Rightarrow> model \<Rightarrow> items option \<Rightarrow> items option \<Rightarrow> (string, val) pydict option \<Rightarrow> bool \<Rightarrow>
      py_error + model"
and model_iter :: "env \<Rightarrow> model \<Rightarrow> flags \<Rightarrow> items option \<Rightarrow> items option \<Rightarrow>
      py_error + (string \<times> val) list"
and iter_loop :: "env \<Rightarrow> string \<Rightarrow> flags \<Rightarrow> string list option \<Rightarrow> items option \<Rightarrow> items option \<Rightarrow>
      (string \<times> val) list \<Rightarrow> py_error + (string \<times> val) list"
and get_value_items :: "env \<Rightarrow> string \<Rightarrow> flags \<Rightarrow> items option \<Rightarrow> items option \<Rightarrow>
      (val \<times> val) list \<Rightarrow> py_error + (val \<times> val) list"
and get_value_seq :: "env \<Rightarrow> string \<Rightarrow> flags \<Rightarrow> items option \<Rightarrow> items option \<Rightarrow> int \<Rightarrow>
      val list \<Rightarrow> py_error + val list"
where
  "get_value E c fl include exclude (VModel v) =
     (if to_dict fl then
        (case model_dict E v include exclude fl None of
           Inl err \<Rightarrow> Inl err
         | Inr v_dict \<Rightarrow>
             (case dict_get v_dict (ROOT_KEY E) of
                Some root \<Rightarrow> Inr root
              | None \<Rightarrow> Inr (VDict (map (\<lambda>(k, x). (VStr k, x)) v_dict))))
      else
        (case model_copy E v include exclude None False of
           Inl err \<Rightarrow> Inl err
         | Inr m \<Rightarrow> Inr (VModel m)))"
| "get_value E c fl include exclude (VDict d) =
     (case get_value_items E c fl (truthy_items include) (truthy_items exclude) d of
        Inl err \<Rightarrow> Inl err
      | Inr d' \<Rightarrow> Inr (VDict d'))"
| "get_value E c fl include exclude (VSeq kind xs) =
     (case get_value_seq E c fl (truthy_items include) (truthy_items exclude) 0 xs of
        Inl err \<Rightarrow> Inl err
      | Inr seq_args \<Rightarrow>
          (case kind of
             NamedTupleKind n \<Rightarrow>
               if length seq_args = length xs then Inr (VSeq kind seq_args)
               else Inl (TypeError_arguments n)
           | ListKind \<Rightarrow> Inr (VSeq kind seq_args)
           | TupleKind \<Rightarrow> Inr (VSeq kind seq_args)))"
| "get_value E c fl include exclude (VEnum n underlying) =
     (if use_enum_values (dunder_config (classes E c)) then Inr (value_of underlying)
      else Inr (VEnum n underlying))"
| "get_value E c fl include exclude v = Inr v"
| "model_dict E self include exclude fl skip_defaults =
     (let excl_unset = (case skip_defaults of None \<Rightarrow> exclude_unset fl | Some b \<Rightarrow> b)
      in case model_iter E self (fl\<lparr>to_dict := True, exclude_unset := excl_unset\<rparr>) include exclude of
           Inl err \<Rightarrow> Inl err
         | Inr pairs \<Rightarrow> Inr (dict_of pairs))"
| "model_copy E self include exclude update deep =
     (case model_iter E self
             \<lparr>to_dict = False, by_alias = False, exclude_unset = False,
              exclude_defaults = False, exclude_none = False\<rparr> include exclude of
        Inl err \<Rightarrow> Inl err
      | Inr pairs \<Rightarrow>
          (let vals = dict_update (dict_of pairs) (case update of None \<Rightarrow> [] | Some u \<Rightarrow> u);
               fs = (case update of
                       None \<Rightarrow> fields_set self
                     | Some [] \<Rightarrow> fields_set self
                     | Some (u # us) \<Rightarrow>
                         fields_set self @
                         filter (\<lambda>k. k \<notin> set (fields_set self)) (remdups (dict_keys (u # us))))
           in Inr (copy_and_set_values E self vals fs deep)))"
| "model_iter E self fl include exclude =
     (let allowed_keys = calculate_keys self include exclude (exclude_unset fl) None in
      if allowed_keys = None \<and>
         \<not> (to_dict fl \<or> by_alias fl \<or> exclude_unset fl \<or> exclude_defaults fl \<or> exclude_none fl)
      then Inr (dunder_dict self)
      else iter_loop E (cls_name self) fl allowed_keys include exclude (dunder_dict self))"
| "iter_loop E c fl allowed_keys value_include value_exclude [] = Inr []"
| "iter_loop E c fl allowed_keys value_include value_exclude ((field_key, v) # rest) =
     (if (case allowed_keys of None \<Rightarrow> False | Some ks \<Rightarrow> field_key \<notin> set ks) \<or>
         (exclude_none fl \<and> v = VNone)
      then iter_loop E c fl allowed_keys value_include value_exclude rest
      else if exclude_defaults fl \<and>
              (case dict_get (dunder_fields (classes E c)) field_key of
                 None \<Rightarrow> False
               | Some model_field \<Rightarrow> \<not> required model_field)
      then Inl (NameError ''_missing'')
      else
        let dict_key = (case (if by_alias fl then dict_get (dunder_fields (classes E c)) field_key
                              else None) of
                          Some model_field \<Rightarrow> field_alias model_field
                        | None \<Rightarrow> field_key)
        in case (if to_dict fl \<or> value_include \<noteq> None \<or> value_exclude \<noteq> None
                 then get_value E c fl
                        (Option.bind value_include (\<lambda>vi. for_element vi (VStr field_key)))
                        (Option.bind value_exclude (\<lambda>ve. for_element ve (VStr field_key))) v
                 else Inr v) of
             Inl err \<Rightarrow> Inl err
           | Inr v' \<Rightarrow>
               (case iter_loop E c fl allowed_keys value_include value_exclude rest of
                  Inl err \<Rightarrow> Inl err
                | Inr rest' \<Rightarrow> Inr ((dict_key, v') # rest')))"
| "get_value_items E c fl value_include value_exclude [] = Inr []"
| "get_value_items E c fl value_include value_exclude ((k, v) # rest) =
     (if (case value_exclude of None \<Rightarrow> True | Some ve \<Rightarrow> \<not> is_excluded ve k) \<and>
         (case value_include of None \<Rightarrow> True | Some vi \<Rightarrow> is_included vi k)
      then
        (case get_value E c fl
                (Option.bind value_include (\<lambda>vi. for_element vi k))
                (Option.bind value_exclude (\<lambda>ve. for_element ve k)) v of
           Inl err \<Rightarrow> Inl err
         | Inr v' \<Rightarrow>
             (case get_value_items E c fl value_include value_exclude rest of
                Inl err \<Rightarrow> Inl err
              | Inr rest' \<Rightarrow> Inr ((k, v') # rest')))
      else get_value_items E c fl value_include value_exclude rest)"
| "get_value_seq E c fl value_include value_exclude i [] = Inr []"
| "get_value_seq E c fl value_include value_exclude i (v # rest) =
     (if (case value_exclude of None \<Rightarrow> True | Some ve \<Rightarrow> \<not> is_excluded ve (VInt i)) \<and>
         (case value_include of None \<Rightarrow> True | Some vi \<Rightarrow> is_included vi (VInt i))
      then
        (case get_value E c fl
                (Option.bind value_include (\<lambda>vi. for_element vi (VInt i)))
                (Option.bind value_exclude (\<lambda>ve. for_element ve (VInt i))) v of
           Inl err \<Rightarrow> Inl err
         | Inr v' \<Rightarrow>
             (case get_value_seq E c fl value_include value_exclude (i + 1) rest of
                Inl err \<Rightarrow> Inl err
              | Inr rest' \<Rightarrow> Inr (v' # rest')))
      else get_value_seq E c fl value_include value_exclude (i + 1) rest)"
  by pat_completeness auto

termination get_value
  by (relation "measure (\<lambda>x. case x of
        Inl (Inl (E, c, fl, inc, exc, v)) \<Rightarrow> 2 * size v
      | Inl (Inr (Inl (E, self, inc, exc, fl, sd))) \<Rightarrow> 2 * size self + 1
      | Inl (Inr (Inr (E, self, inc, exc, upd, deep))) \<Rightarrow> 2 * size self + 1
      | Inr (Inl (Inl (E, self, fl, inc, exc))) \<Rightarrow> 2 * size self
      | Inr (Inl (Inr (E, c, fl, ak, vi, ve, its))) \<Rightarrow> 2 * size_list (size_prod (\<lambda>x. 0) size) its
      | Inr (Inr (Inl (E, c, fl, vi, ve, d))) \<Rightarrow> 2 * size_list (size_prod size size) d
      | Inr (Inr (Inr (E, c, fl, vi, ve, i, xs))) \<Rightarrow> 2 * size_list size xs)")
     (simp_all add: size_dunder_dict)

text \<open>
  The equations of \<open>dict\<close>, \<open>copy\<close> and \<open>_iter\<close> have no pattern on
  their left: they are unfolded on request only.
\<close>

declare model_dict.simps [simp del] model_copy.simps [simp del] model_iter.simps [simp del]

subsection \<open>Construction by trust: \<open>construct\<close>\<close>

text \<open>
  \<open>object_setattr(self, name, value)\<close>, which is \<open>object.__setattr__\<close>, for the
  names that \<open>__setattr__\<close> and \<open>_init_private_attributes\<close> hand to it. A
  private attribute is a slot of the class and is stored beside \<open>__dict__\<close> and
  \<open>__fields_set__\<close>. Any other name, that is a reserved name of
  \<open>DUNDER_ATTRIBUTES\<close>, is stored in the instance's \<open>__dict__\<close>, which is the
  values mapping. (\<open>__dict__\<close> and \<open>__fields_set__\<close> themselves are assigned
  only by \<open>construct\<close>, \<open>_copy_and_set_values\<close> and the last lines of
  \<open>__setattr__\<close>, which build the new instance directly below.)
\<close>

definition object_setattr :: "env \<Rightarrow> model \<Rightarrow> string \<Rightarrow> val \<Rightarrow> model" where
  "object_setattr E self name v =
     (if name \<in> set (dict_keys (private_attributes (classes E (cls_name self))))
      then Model (cls_name self) (dunder_dict self) (fields_set self)
                 (dict_set (private_values self) name v)
      else Model (cls_name self) (dict_set (dunder_dict self) name v) (fields_set self)
                 (private_values self))"

text \<open>\<open>_init_private_attributes\<close>\<close>

definition init_private_attributes :: "env \<Rightarrow> model \<Rightarrow> model" where
  "init_private_attributes E self =
     fold (\<lambda>(name, dflt) m. case dflt of None \<Rightarrow> m | Some v \<Rightarrow> object_setattr E m name v)
          (private_attributes (classes E (cls_name self))) self"

text \<open>The body of the loop of \<open>construct\<close> over \<open>cls.__fields__.items()\<close>.\<close>

definition construct_field ::
  "(string, val) pydict \<Rightarrow> string \<times> ModelField \<Rightarrow> (string, val) pydict \<Rightarrow> (string, val) pydict" where
  "construct_field vals nf fields_values =
     (case nf of (name, fld) \<Rightarrow>
        (case (if alt_alias fld then dict_get vals (field_alias fld) else None) of
           Some v \<Rightarrow> dict_set fields_values name v
         | None \<Rightarrow>
             (case dict_get vals name of
                Some v \<Rightarrow> dict_set fields_values name v
              | None \<Rightarrow>
                  if \<not> required fld then dict_set fields_values name (get_default fld)
                  else fields_values)))"

text \<open>
  \<open>construct\<close> for the class named \<open>c\<close>, with the optional \<open>_fields_set\<close> and the
  keyword arguments \<open>vals\<close>.
\<close>

definition construct :: "env \<Rightarrow> string \<Rightarrow> string list option \<Rightarrow> (string, val) pydict \<Rightarrow> model" where
  "construct E c fs_arg vals =
     (let fields_values = fold (construct_field vals) (dunder_fields (classes E c)) [];
          fields_values' = dict_update fields_values vals;
          fs = (case fs_arg of None \<Rightarrow> dict_keys vals | Some s \<Rightarrow> s)
      in init_private_attributes E (Model c fields_values' fs []))"

text \<open>
  The call \<open>cls.construct(**kwargs)\<close>: a key \<open>cls\<close> names the parameter that the
  class method already fills, so the call raises \<open>TypeError\<close>; a key
  \<open>_fields_set\<close> is taken by the parameter of that name and the other entries are
  the values. \<open>__fields_set__\<close> is a list of names here: of an object bound to
  \<open>_fields_set\<close> it keeps the names that the object holds.
\<close>

fun names_in :: "val \<Rightarrow> string list" where
  "names_in (VSeq kind xs) = concat (map (\<lambda>x. case x of VStr s \<Rightarrow> [s] | _ \<Rightarrow> []) xs)"
| "names_in (VDict d) = concat (map (\<lambda>(k, v). case k of VStr s \<Rightarrow> [s] | _ \<Rightarrow> []) d)"
| "names_in v = []"

definition construct_kwargs :: "env \<Rightarrow> string \<Rightarrow> (string, val) pydict \<Rightarrow> py_error + model" where
  "construct_kwargs E c kwargs =
     (if ''cls'' \<in> set (dict_keys kwargs) then Inl (TypeError_multiple_values ''cls'')
      else
        case dict_get kwargs ''_fields_set'' of
          None \<Rightarrow> Inr (construct E c None kwargs)
        | Some VNone \<Rightarrow>
            Inr (construct E c None (filter (\<lambda>(k, v). k \<noteq> ''_fields_set'') kwargs))
        | Some fs \<Rightarrow>
            Inr (construct E c (Some (names_in fs))
                   (filter (\<lambda>(k, v). k \<noteq> ''_fields_set'') kwargs)))"

subsection \<open>Controlled mutation: \<open>__setattr__\<close>\<close>

text \<open>\<open>self.__fields_set__.add(name)\<close>\<close>

definition fields_set_add :: "model \<Rightarrow> string \<Rightarrow> model" where
  "fields_set_add self name =
     Model (cls_name self) (dunder_dict self)
           (if name \<in> set (fields_set self) then fields_set self else fields_set self @ [name])
           (private_values self)"

text \<open>Replacing \<open>__dict__\<close>, or assigning one of its items.\<close>

definition with_dict :: "model \<Rightarrow> (string, val) pydict \<Rightarrow> model" where
  "with_dict self d = Model (cls_name self) d (fields_set self) (private_values self)"

text \<open>
  \<open>__setattr__\<close> returns the exception it raises, if any, and the instance after the
  call. Every \<open>raise\<close> of the source comes before the first assignment to the instance
  (\<open>new_values\<close> is a new dictionary), so a call that raises leaves the instance as it
  was.
\<close>

definition dunder_setattr :: "env \<Rightarrow> model \<Rightarrow> string \<Rightarrow> val \<Rightarrow> py_error option \<times> model" where
  "dunder_setattr E self name v =
     (let cls = classes E (cls_name self); cfg = dunder_config cls; flds = dunder_fields cls in
      if name \<in> set (dict_keys (private_attributes cls)) \<or> name \<in> set (DUNDER_ATTRIBUTES E)
      then (None, object_setattr E self name v)
      else if \<not> extra_allow cfg \<and> name \<notin> set (dict_keys flds)
      then (Some (ValueError_no_field (cls_name self) name), self)
      else if \<not> allow_mutation cfg \<or> frozen cfg
      then (Some (TypeError_immutable (cls_name self)), self)
      else if (case dict_get flds name of None \<Rightarrow> False | Some fld \<Rightarrow> final fld)
      then (Some (TypeError_final (cls_name self) name), self)
      else if validate_assignment cfg
      then
        (let new_values = dict_set (dunder_dict self) name v in
         case dict_get flds name of
           None \<Rightarrow> (None, fields_set_add (with_dict self new_values) name)
         | Some known_field \<Rightarrow>
             if \<not> field_allow_mutation known_field
             then (Some (TypeError_allow_mutation name), self)
             else
               (let dict_without_original_value = filter (\<lambda>(k, x). k \<noteq> name) (dunder_dict self)
                in case validate known_field v dict_without_original_value of
                     (v', Some error) \<Rightarrow> (Some (ValidationError (cls_name self) [error]), self)
                   | (v', None) \<Rightarrow>
                       (None, fields_set_add (with_dict self (dict_set new_values name v')) name)))
      else (None, fields_set_add (with_dict self (dict_set (dunder_dict self) name v)) name))"

text \<open>A sequence of assignments, each through \<open>__setattr__\<close>; one that raises changes nothing.\<close>

definition setattrs :: "env \<Rightarrow> model \<Rightarrow> (string \<times> val) list \<Rightarrow> model" where
  "setattrs E self ops = fold (\<lambda>(name, v) m. snd (dunder_setattr E m name v)) ops self"

subsection \<open>Notions used to state the instance engine's properties\<close>

text \<open>
  What \<open>construct\<close> stores for a declared field before the supplied mapping is laid
  over the result: the value supplied under the alias, else the value supplied under the
  name, else the default of a field that is not required, else nothing.
\<close>

definition filled :: "(string, val) pydict \<Rightarrow> string \<Rightarrow> ModelField \<Rightarrow> val option" where
  "filled vals name fld =
     (case (if alt_alias fld then dict_get vals (field_alias fld) else None) of
        Some v \<Rightarrow> Some v
      | None \<Rightarrow>
          (case dict_get vals name of
             Some v \<Rightarrow> Some v
           | None \<Rightarrow> if \<not> required fld then Some (get_default fld) else None))"

text \<open>
  The key under which \<open>_iter\<close> yields the value of \<open>field_key\<close>: the alias of the
  field when \<open>by_alias\<close> is set and the key is a declared field, the key itself
  otherwise.
\<close>

definition emitted_key :: "env \<Rightarrow> string \<Rightarrow> flags \<Rightarrow> string \<Rightarrow> string" where
  "emitted_key E c fl field_key =
     (case (if by_alias fl then dict_get (dunder_fields (classes E c)) field_key else None) of
        Some model_field \<Rightarrow> field_alias model_field
      | None \<Rightarrow> field_key)"

subsection \<open>Equality of values: \<open>__eq__\<close>\<close>

text \<open>
  \<open>BaseModel.__eq__\<close> compares \<open>self.dict()\<close> with \<open>other.dict()\<close> when the other
  value is an instance, and with the other value itself otherwise. Python's containers
  compare their elements with \<open>==\<close>, which asks the element on the right when the one
  on the left does not know the other's type; so wherever an instance stands on either
  side of a comparison, it is its \<open>dict()\<close> that is compared. \<open>eq_view\<close> is the
  value as \<open>==\<close> sees it: an instance is replaced by its \<open>dict()\<close> (which
  returns, since a call with no filter and no flag raises nothing), and a container by
  the views of its elements.
\<close>

fun eq_view :: "env \<Rightarrow> val \<Rightarrow> val" where
  "eq_view E (VModel m) =
     (case model_dict E m None None no_flags None of
        Inr d \<Rightarrow> VDict (map (\<lambda>(k, v). (VStr k, v)) d)
      | Inl err \<Rightarrow> VModel m)"
| "eq_view E (VDict d) = VDict (map (\<lambda>(k, v). (k, eq_view E v)) d)"
| "eq_view E (VSeq kind xs) = VSeq kind (map (eq_view E) xs)"
| "eq_view E v = v"

text \<open>
  \<open>==\<close> on values that hold no instance: \<open>True\<close> and \<open>False\<close> are the integers
  1 and 0; a member of an \<open>Enum\<close> class equals itself only; two dictionaries are equal
  when they have the same keys and equal values under each key, whatever the order; a
  list equals a list and a tuple a tuple (a named tuple is a tuple), element by element.
  Keys are compared as they are stored: the projection never changes a key, and the one
  difference from Python (a key \<open>True\<close> against a key \<open>1\<close>) makes \<open>data_eq\<close>
  deny an equality that Python grants, never the converse.
\<close>

function
  data_eq :: "val \<Rightarrow> val \<Rightarrow> bool"
and data_eq_list :: "val list \<Rightarrow> val list \<Rightarrow> bool"
and data_eq_entries :: "(val \<times> val) list \<Rightarrow> (val \<times> val) list \<Rightarrow> bool"
and data_eq_lookup :: "val \<Rightarrow> val \<Rightarrow> (val \<times> val) list \<Rightarrow> bool"
where
  "data_eq VNone b = (b = VNone)"
| "data_eq (VBool p) b =
     (case b of VBool q \<Rightarrow> p = q | VInt j \<Rightarrow> j = (if p then 1 else 0) | _ \<Rightarrow> False)"
| "data_eq (VInt i) b =
     (case b of VInt j \<Rightarrow> i = j | VBool q \<Rightarrow> i = (if q then 1 else 0) | _ \<Rightarrow> False)"
| "data_eq (VStr s) b = (b = VStr s)"
| "data_eq (VEnum n u) b = (b = VEnum n u)"
| "data_eq (VDict d) b =
     (case b of
        VDict d' \<Rightarrow> set (dict_keys d) = set (dict_keys d') \<and> data_eq_entries d d'
      | _ \<Rightarrow> False)"
| "data_eq (VSeq kind xs) b =
     (case b of
        VSeq kind' ys \<Rightarrow> (kind = ListKind) = (kind' = ListKind) \<and> data_eq_list xs ys
      | _ \<Rightarrow> False)"
| "data_eq (VModel m) b = False"
| "data_eq_list [] ys = (ys = [])"
| "data_eq_list (x # xs) ys =
     (case ys of [] \<Rightarrow> False | y # ys' \<Rightarrow> data_eq x y \<and> data_eq_list xs ys')"
| "data_eq_entries [] d' = True"
| "data_eq_entries ((k, v) # rest) d' = (data_eq_lookup v k d' \<and> data_eq_entries rest d')"
| "data_eq_lookup v k [] = False"
| "data_eq_lookup v k ((k', v') # rest) =
     ((k' = k \<and> data_eq v v') \<or> data_eq_lookup v k rest)"
  by pat_completeness auto
termination
  by (relation "measure (\<lambda>x. case x of
        Inl (Inl (a, b)) \<Rightarrow> size a + size b
      | Inl (Inr (xs, ys)) \<Rightarrow> size_list size xs + size_list size ys
      | Inr (Inl (d, d')) \<Rightarrow> size_list (size_prod size size) d + size_list (size_prod size size) d'
      | Inr (Inr (v, k, d')) \<Rightarrow> size v + size_list (size_prod size size) d')")
     simp_all

definition py_eq :: "env \<Rightarrow> val \<Rightarrow> val \<Rightarrow> bool" where
  "py_eq E a b = data_eq (eq_view E a) (eq_view E b)"

text \<open>A value that holds no instance (under no key of a dictionary, at no index).\<close>

fun instance_free :: "val \<Rightarrow> bool" where
  "instance_free (VModel m) = False"
| "instance_free (VDict d) = list_all (\<lambda>(k, v). instance_free v) d"
| "instance_free (VSeq kind xs) = list_all instance_free xs"
| "instance_free v = True"

text \<open>
  The values that the full projection of an instance of a class emits in a form equal to
  the original: an enumeration member only when the class does not emit raw values
  (\<open>raw\<close>), an instance only when its own \<open>dict()\<close> has no \<open>ROOT_KEY\<close> entry
  (\<open>_get_value\<close> replaces such an instance by the value under that key), and a
  container when its elements are such values.
\<close>

fun round_trips :: "env \<Rightarrow> bool \<Rightarrow> val \<Rightarrow> bool" where
  "round_trips E raw (VModel m) =
     (case model_dict E m None None no_flags None of
        Inr d \<Rightarrow> ROOT_KEY E \<notin> set (dict_keys d)
      | Inl err \<Rightarrow> False)"
| "round_trips E raw (VEnum n u) = (\<not> raw)"
| "round_trips E raw (VDict d) = list_all (\<lambda>(k, v). round_trips E raw v) d"
| "round_trips E raw (VSeq kind xs) = list_all (round_trips E raw) xs"
| "round_trips E raw v = True"

subsection \<open>Example classes and instances\<close>

definition mk_field :: "string \<Rightarrow> bool \<Rightarrow> val \<Rightarrow> ModelField" where
  "mk_field al req d =
     \<lparr>field_alias = al, alt_alias = False, required = req, default_value = d,
      default_factory = None, final = False, field_allow_mutation = True,
      validate = (\<lambda>v ctx. (v, None))\<rparr>"

definition default_config :: config where
  "default_config =
     \<lparr>extra_allow = False, allow_mutation = True, frozen = False,
      validate_assignment = False, use_enum_values = False\<rparr>"

text \<open>
  The spec's example: \<open>name\<close> is a required string, \<open>age\<close> an integer with
  default 0.
\<close>

definition person_class :: model_class where
  "person_class =
     \<lparr>dunder_fields = [(''name'', mk_field ''name'' True VNone),
                        (''age'', mk_field ''age'' False (VInt 0))],
      private_attributes = [],
      dunder_config = default_config\<rparr>"

text \<open>A class whose field \<open>x\<close> has the alias \<open>X\<close> and the default 0.\<close>

definition aliased_field :: ModelField where
  "aliased_field = (mk_field ''X'' False (VInt 0))\<lparr>alt_alias := True\<rparr>"

definition aliased_class :: model_class where
  "aliased_class =
     \<lparr>dunder_fields = [(''x'', aliased_field)],
      private_attributes = [],
      dunder_config = default_config\<rparr>"

text \<open>A class with a final field \<open>ident\<close> and a private attribute \<open>_cache\<close>.\<close>

definition final_field :: ModelField where
  "final_field = (mk_field ''ident'' True VNone)\<lparr>final := True\<rparr>"

definition locked_class :: model_class where
  "locked_class =
     \<lparr>dunder_fields = [(''ident'', final_field),
                        (''note'', mk_field ''note'' False (VStr ''''))],
      private_attributes = [(''_cache'', None)],
      dunder_config = default_config\<rparr>"

text \<open>A class \<open>Outer\<close> whose field \<open>inner\<close> holds an instance of \<open>Inner\<close>.\<close>

definition outer_class :: model_class where
  "outer_class =
     \<lparr>dunder_fields = [(''inner'', mk_field ''inner'' True VNone)],
      private_attributes = [],
      dunder_config = default_config\<rparr>"

definition inner_class :: model_class where
  "inner_class =
     \<lparr>dunder_fields = [(''x'', mk_field ''x'' True VNone)],
      private_attributes = [],
      dunder_config = default_config\<rparr>"

text \<open>
  A class \<open>Painted\<close> that emits raw enumeration values, and a class \<open>Rooted\<close>
  with a custom root.
\<close>

definition painted_class :: model_class where
  "painted_class =
     \<lparr>dunder_fields = [(''colour'', mk_field ''colour'' True VNone)],
      private_attributes = [],
      dunder_config = default_config\<lparr>use_enum_values := True\<rparr>\<rparr>"

definition rooted_class :: model_class where
  "rooted_class =
     \<lparr>dunder_fields = [(''__root__'', mk_field ''__root__'' True VNone)],
      private_attributes = [],
      dunder_config = default_config\<rparr>"

definition example_env :: env where
  "example_env =
     \<lparr>classes = (\<lambda>c. if c = ''Person'' then person_class
                      else if c = ''Aliased'' then aliased_class
                      else if c = ''Locked'' then locked_class
                      else if c = ''Outer'' then outer_class
                      else if c = ''Painted'' then painted_class
                      else if c = ''Rooted'' then rooted_class
                      else inner_class),
      DUNDER_ATTRIBUTES = [''__doc__'', ''__module__'', ''__qualname__''],
      ROOT_KEY = ''__root__''\<rparr>"

definition locked_instance :: model where
  "locked_instance =
     Model ''Locked'' [(''ident'', VInt 7), (''note'', VStr ''a'')] [''ident''] []"

definition inner_instance :: model where
  "inner_instance = Model ''Inner'' [(''x'', VInt 1)] [''x''] []"

definition outer_instance :: model where
  "outer_instance = Model ''Outer'' [(''inner'', VModel inner_instance)] [''inner''] []"

definition person_instance :: model where
  "person_instance = Model ''Person'' [(''name'', VStr ''A''), (''age'', VInt 0)] [''name''] []"

text \<open>
  An instance whose values hold a tuple, a dictionary and, in a list, an instance of
  another class.
\<close>

definition nested_instance :: model where
  "nested_instance =
     Model ''Outer''
       [(''inner'', VSeq ListKind [VModel inner_instance]),
        (''tags'', VSeq TupleKind [VStr ''A'', VDict [(VStr ''k'', VBool True)]])]
       [''inner''] []"

text \<open>
  Instances whose round trip changes the values: a member of an \<open>Enum\<close> class in a
  class that emits raw values, an instance with a custom root inside another instance,
  and values under the keys \<open>cls\<close> and \<open>_fields_set\<close>.
\<close>

definition painted_instance :: model where
  "painted_instance =
     Model ''Painted'' [(''colour'', VEnum ''Colour.RED'' (EnumInt 1))] [''colour''] []"

definition rooted_instance :: model where
  "rooted_instance = Model ''Rooted'' [(''__root__'', VInt 5)] [''__root__''] []"

definition holder_instance :: model where
  "holder_instance = Model ''Outer'' [(''inner'', VModel rooted_instance)] [''inner''] []"

definition cls_key_instance :: model where
  "cls_key_instance = Model ''Person'' [(''name'', VStr ''A''), (''cls'', VInt 1)] [''name''] []"

definition fields_set_key_instance :: model where
  "fields_set_key_instance =
     Model ''Person'' [(''name'', VStr ''A''), (''age'', VInt 0), (''_fields_set'', VNone)]
       [''name''] []"

section \<open>Facts about dictionaries\<close>

lemma dict_get_set: "dict_get (dict_set d k v) k' = (if k' = k then Some v else dict_get d k')"
  by (induction d) auto

lemma dict_get_None_iff: "dict_get d k = None \<longleftrightarrow> k \<notin> set (dict_keys d)"
  by (induction d) (auto simp: dict_keys_def split: if_splits)

lemma dict_keys_set: "set (dict_keys (dict_set d k v)) = insert k (set (dict_keys d))"
proof (induction d)
  case Nil
  then show ?case by (simp add: dict_keys_def)
next
  case (Cons p d)
  then show ?case by (cases p) (auto simp: dict_keys_def)
qed

lemma dict_set_append: "k \<notin> set (dict_keys a) \<Longrightarrow> dict_set a k v = a @ [(k, v)]"
  by (induction a) (auto simp: dict_keys_def)

lemma dict_update_Cons: "dict_update d ((k, v) # e) = dict_update (dict_set d k v) e"
  by (simp add: dict_update_def)

lemma dict_update_Nil: "dict_update d [] = d"
  by (simp add: dict_update_def)

lemma dict_get_update:
  "distinct (dict_keys e) \<Longrightarrow>
   dict_get (dict_update d e) k = (case dict_get e k of None \<Rightarrow> dict_get d k | Some v \<Rightarrow> Some v)"
proof (induction e arbitrary: d)
  case Nil
  then show ?case by (simp add: dict_update_Nil)
next
  case (Cons p e)
  obtain k' v' where p: "p = (k', v')" by (cases p)
  from Cons.prems have de: "distinct (dict_keys e)" and ke: "k' \<notin> set (dict_keys e)"
    by (auto simp: dict_keys_def p)
  from ke have "dict_get e k' = None" by (simp add: dict_get_None_iff)
  then show ?case
    using Cons.IH [OF de, of "dict_set d k' v'"]
    by (auto simp: p dict_update_Cons dict_get_set split: option.splits)
qed

lemma dict_keys_update:
  "set (dict_keys (dict_update d e)) = set (dict_keys d) \<union> set (dict_keys e)"
proof (induction e arbitrary: d)
  case Nil
  then show ?case by (simp add: dict_update_Nil dict_keys_def)
next
  case (Cons p e)
  obtain k' v' where p: "p = (k', v')" by (cases p)
  have "set (dict_keys ((k', v') # e)) = insert k' (set (dict_keys e))"
    by (simp add: dict_keys_def)
  then show ?case
    using Cons.IH [of "dict_set d k' v'"]
    by (simp add: p dict_update_Cons dict_keys_set)
qed

lemma dict_update_distinct:
  "distinct (dict_keys (a @ d)) \<Longrightarrow> dict_update a d = a @ d"
proof (induction d arbitrary: a)
  case Nil
  then show ?case by (simp add: dict_update_Nil)
next
  case (Cons p d)
  obtain k v where p: "p = (k, v)" by (cases p)
  from Cons.prems have ka: "k \<notin> set (dict_keys a)"
    by (auto simp: dict_keys_def p)
  from Cons.prems have "distinct (dict_keys ((a @ [(k, v)]) @ d))"
    by (simp add: dict_keys_def p)
  then have "dict_update (a @ [(k, v)]) d = (a @ [(k, v)]) @ d"
    by (rule Cons.IH)
  then show ?case
    by (simp add: p dict_update_Cons dict_set_append [OF ka])
qed

lemma dict_of_distinct: "distinct (dict_keys d) \<Longrightarrow> dict_of d = d"
  using dict_update_distinct [of "[]" d] by (simp add: dict_of_def)

lemma dict_get_Some_iff:
  "distinct (dict_keys d) \<Longrightarrow> dict_get d k = Some v \<longleftrightarrow> (k, v) \<in> set d"
proof (induction d)
  case Nil
  then show ?case by simp
next
  case (Cons p d)
  obtain k' v' where p: "p = (k', v')" by (cases p)
  from Cons.prems have "distinct (dict_keys d)" and "k' \<notin> fst ` set d"
    by (auto simp: dict_keys_def p)
  then show ?case
    using Cons.IH by (force simp: p)
qed

lemma dict_keys_dict_of: "set (dict_keys (dict_of ps)) = set (dict_keys ps)"
  by (simp add: dict_of_def dict_keys_update) (simp add: dict_keys_def)

section \<open>The registry: inheritance and resolution\<close>

lemma stored_register_field:
  "stored (register_field v n d) f = stored d f @ (if n = f then [v] else [])"
  by (auto simp: stored_def register_field_def dict_get_set split: option.splits)

lemma stored_fold_register_field:
  "stored (fold (register_field v) ns d) f = stored d f @ map (\<lambda>_. v) (filter (\<lambda>n. n = f) ns)"
  by (induction ns arbitrary: d) (auto simp: stored_register_field)

lemma dict_get_inherit_item:
  "dict_get (inherit_item (k, v) d) f = (if f = k then Some v else dict_get d f)"
  by (auto simp: inherit_item_def Let_def dict_get_set split: option.splits)

lemma dict_get_fold_inherit_item:
  "distinct (dict_keys p) \<Longrightarrow>
   dict_get (fold inherit_item p d) f =
     (case dict_get p f of None \<Rightarrow> dict_get d f | Some v \<Rightarrow> Some v)"
proof (induction p arbitrary: d)
  case Nil
  then show ?case by simp
next
  case (Cons kv p)
  obtain k v where kv: "kv = (k, v)" by (cases kv)
  from Cons.prems have dp: "distinct (dict_keys p)" and kp: "k \<notin> set (dict_keys p)"
    by (auto simp: dict_keys_def kv)
  from kp have "dict_get p k = None" by (simp add: dict_get_None_iff)
  then show ?case
    using Cons.IH [OF dp, of "inherit_item (k, v) d"]
    by (auto simp: kv dict_get_inherit_item split: option.splits)
qed

lemma extract_validator_all_root:
  "all_fields_validators (snd (extract_validator s v)) = all_fields_validators s \<and>
   root_validators (snd (extract_validator s v)) = root_validators s"
  by (auto simp: extract_validator_def Let_def split: option.splits)

lemma extract_all_all_root:
  "all_fields_validators (extract_all s vs) = all_fields_validators s \<and>
   root_validators (extract_all s vs) = root_validators s"
  unfolding extract_all_def
  by (induction vs arbitrary: s) (simp_all add: extract_validator_all_root)

lemma stored_extract_validator:
  "stored (field_validators (snd (extract_validator s v))) f =
   stored (field_validators s) f @ own_validators [v] f"
  by (auto simp: extract_validator_def Let_def own_validators_def stored_fold_register_field
           split: option.splits)

lemma own_validators_Cons:
  "own_validators (v # vs) f = own_validators [v] f @ own_validators vs f"
  by (simp add: own_validators_def)

lemma stored_extract_all:
  "stored (field_validators (extract_all s vs)) f =
   stored (field_validators s) f @ own_validators vs f"
proof (induction vs arbitrary: s)
  case Nil
  then show ?case by (simp add: extract_all_def own_validators_def)
next
  case (Cons v vs)
  have "extract_all s (v # vs) = extract_all (snd (extract_validator s v)) vs"
    by (simp add: extract_all_def)
  then show ?case
    using Cons.IH [of "snd (extract_validator s v)"]
    by (simp add: stored_extract_validator own_validators_Cons [of v vs])
qed

lemma fst_get_field_validators:
  "fst (get_field_validators s f) = stored (field_validators s) f @ all_fields_validators s"
  by (auto simp: get_field_validators_def Let_def stored_def split: option.splits)

text \<open>
  Claim C1. A child registry \<open>C\<close> that holds no field validators of its own yet inherits
  from a parent \<open>P\<close> (whose table is a dictionary: its keys are distinct) and then
  registers its own validators \<open>vals\<close>. Resolving any field \<open>f\<close> on the result returns
  the parent's validators for \<open>f\<close>, then the child's own for \<open>f\<close> in registration
  order, then the all-fields validators; the merged all-fields sequence and the merged
  root sequence are the parent's followed by the child's.
\<close>

theorem inherit_parent_first:
  assumes "distinct (dict_keys (field_validators P))"
    and "field_validators C = []"
  shows "fst (get_field_validators (extract_all (inherit C P) vals) f) =
           stored (field_validators P) f @ own_validators vals f @
           (all_fields_validators P @ all_fields_validators C) \<and>
         all_fields_validators (extract_all (inherit C P) vals) =
           all_fields_validators P @ all_fields_validators C \<and>
         root_validators (extract_all (inherit C P) vals) =
           root_validators P @ root_validators C"
proof -
  have "stored (field_validators (inherit C P)) f = stored (field_validators P) f"
    using assms
    by (simp add: inherit_def stored_def dict_get_fold_inherit_item split: option.splits)
  moreover have "all_fields_validators (inherit C P) =
      all_fields_validators P @ all_fields_validators C"
    and "root_validators (inherit C P) = root_validators P @ root_validators C"
    by (simp_all add: inherit_def)
  ultimately show ?thesis
    by (simp add: fst_get_field_validators stored_extract_all extract_all_all_root)
qed

theorem inherit_parent_first_witness:
  "distinct (dict_keys (field_validators parent_registry)) \<and>
   field_validators child_registry = [] \<and>
   fst (get_field_validators
          (extract_all (inherit child_registry parent_registry) [child_decl]) ''x'') =
     [mk_validator ''parent_x'' 1 True, mk_validator ''child_x'' 6 True,
      mk_validator ''parent_all'' 2 True, mk_validator ''child_all'' 4 True] \<and>
   root_validators (extract_all (inherit child_registry parent_registry) [child_decl]) =
     [mk_root ''parent_root'' 3, mk_root ''child_root'' 5]"
proof -
  have d: "distinct (dict_keys (field_validators parent_registry))"
    by (simp add: parent_registry_def dict_keys_def)
  have e: "field_validators child_registry = []"
    by (simp add: child_registry_def)
  show ?thesis
    using d e inherit_parent_first [OF d e, of "[child_decl]" "''x''"]
    by (simp add: parent_registry_def child_registry_def child_decl_def stored_def
        own_validators_def)
qed

text \<open>
  Claim C2 (the code departs from it). In \<open>mixed_registry\<close> the field \<open>x\<close> has one
  validator and there is one all-fields validator. The first resolution of \<open>x\<close> returns
  the two in order, and leaves the list stored for \<open>x\<close> extended by the all-fields
  validator; the second resolution therefore returns three entries, not the same two.
\<close>

theorem get_field_validators_extends_stored:
  "fst (get_field_validators mixed_registry ''x'') =
     [mk_validator ''check_x'' 1 True, mk_validator ''check_all'' 2 True] \<and>
   field_validators mixed_registry = [(''x'', [mk_validator ''check_x'' 1 True])] \<and>
   field_validators (snd (get_field_validators mixed_registry ''x'')) =
     [(''x'', [mk_validator ''check_x'' 1 True, mk_validator ''check_all'' 2 True])] \<and>
   fst (get_field_validators (snd (get_field_validators mixed_registry ''x'')) ''x'') =
     [mk_validator ''check_x'' 1 True, mk_validator ''check_all'' 2 True,
      mk_validator ''check_all'' 2 True]"
  by (simp add: get_field_validators_def mixed_registry_def Let_def)

text \<open>
  Claim C3 (the code departs from it). For a value that carries the root-validator tag
  and no field-validator tag, \<open>extract_validator\<close> returns false and leaves the registry,
  its root validators included, as it was.
\<close>

theorem extract_validator_root_not_registered:
  "extract_validator s \<lparr>field_validator_tag = None, root_validator_tag = Some r\<rparr> = (False, s)"
  by (simp add: extract_validator_def)

section \<open>The registry: unused validators\<close>

lemma unused_validators_eq:
  "unused_validators s =
     {dunder_name (func v) | f v.
        f \<in> set (dict_keys (field_validators s)) - used_validators s \<and>
        v \<in> set (stored (field_validators s) f) \<and> check_fields v}"
  by (auto simp: unused_validators_def stored_def)

text \<open>
  Claim C6. \<open>check_for_unused\<close> fails exactly when some name that carries field
  validators was never resolved and one of its entries has \<open>check_fields\<close> set; the
  error then names exactly the functions of all such entries; and the outcome does not
  depend on the root validators.
\<close>

theorem check_for_unused_iff:
  "((\<exists>e. check_for_unused s = Inl e) \<longleftrightarrow>
      (\<exists>f \<in> set (dict_keys (field_validators s)) - used_validators s.
         \<exists>v \<in> set (stored (field_validators s) f). check_fields v)) \<and>
   (\<forall>names. check_for_unused s = Inl (ConfigError names) \<longrightarrow>
      names = {dunder_name (func v) | f v.
                 f \<in> set (dict_keys (field_validators s)) - used_validators s \<and>
                 v \<in> set (stored (field_validators s) f) \<and> check_fields v}) \<and>
   check_for_unused (s\<lparr>root_validators := r\<rparr>) = check_for_unused s"
proof -
  have 1: "unused_validators (s\<lparr>root_validators := r\<rparr>) = unused_validators s"
    by (simp add: unused_validators_def)
  show ?thesis
    unfolding check_for_unused_def 1 unused_validators_eq by auto
qed

theorem check_for_unused_iff_witness:
  "check_for_unused unused_registry = Inl (ConfigError {''check_b''}) \<and>
   (\<exists>f \<in> set (dict_keys (field_validators unused_registry)) - used_validators unused_registry.
      \<exists>v \<in> set (stored (field_validators unused_registry) f). check_fields v) \<and>
   {''check_b''} = {dunder_name (func v) | f v.
      f \<in> set (dict_keys (field_validators unused_registry)) - used_validators unused_registry \<and>
      v \<in> set (stored (field_validators unused_registry) f) \<and> check_fields v}"
proof -
  have c: "check_for_unused unused_registry = Inl (ConfigError {''check_b''})"
    by (simp add: check_for_unused_def unused_validators_def unused_registry_def
        dict_keys_def mk_validator_def)
  note t = check_for_unused_iff [of unused_registry "[]"]
  from c have "\<exists>e. check_for_unused unused_registry = Inl e" by (rule exI)
  with t have 1: "\<exists>f \<in> set (dict_keys (field_validators unused_registry)) - used_validators unused_registry.
      \<exists>v \<in> set (stored (field_validators unused_registry) f). check_fields v"
    by (rule iffD1 [OF conjunct1])
  from t have "\<forall>names. check_for_unused unused_registry = Inl (ConfigError names) \<longrightarrow>
      names = {dunder_name (func v) | f v.
                 f \<in> set (dict_keys (field_validators unused_registry)) - used_validators unused_registry \<and>
                 v \<in> set (stored (field_validators unused_registry) f) \<and> check_fields v}"
    by (rule conjunct1 [OF conjunct2])
  then have 2: "{''check_b''} = {dunder_name (func v) | f v.
      f \<in> set (dict_keys (field_validators unused_registry)) - used_validators unused_registry \<and>
      v \<in> set (stored (field_validators unused_registry) f) \<and> check_fields v}"
    using c by blast
  from c 1 2 show ?thesis by (intro conjI)
qed

section \<open>Construction by trust\<close>

lemma dict_get_construct_field:
  "dict_get (construct_field vals (n, fld) acc) k =
     (if k = n then (case filled vals n fld of None \<Rightarrow> dict_get acc k | Some v \<Rightarrow> Some v)
      else dict_get acc k)"
  by (auto simp: construct_field_def filled_def dict_get_set split: option.splits)

lemma dict_get_fold_construct_field:
  "distinct (dict_keys flds) \<Longrightarrow>
   dict_get (fold (construct_field vals) flds acc) k =
     (case dict_get flds k of
        None \<Rightarrow> dict_get acc k
      | Some fld \<Rightarrow> (case filled vals k fld of None \<Rightarrow> dict_get acc k | Some v \<Rightarrow> Some v))"
proof (induction flds arbitrary: acc)
  case Nil
  then show ?case by simp
next
  case (Cons p flds)
  obtain n fld where p: "p = (n, fld)" by (cases p)
  from Cons.prems have df: "distinct (dict_keys flds)" and nf: "n \<notin> set (dict_keys flds)"
    by (auto simp: dict_keys_def p)
  from nf have "dict_get flds n = None" by (simp add: dict_get_None_iff)
  then show ?case
    using Cons.IH [OF df, of "construct_field vals (n, fld) acc"]
    by (auto simp: p dict_get_construct_field split: option.splits)
qed

lemma object_setattr_private:
  "name \<in> set (dict_keys (private_attributes (classes E (cls_name m)))) \<Longrightarrow>
   cls_name (object_setattr E m name v) = cls_name m \<and>
   dunder_dict (object_setattr E m name v) = dunder_dict m \<and>
   fields_set (object_setattr E m name v) = fields_set m"
  by (simp add: object_setattr_def)

lemma fold_object_setattr_frame:
  "set (dict_keys ps) \<subseteq> set (dict_keys (private_attributes (classes E (cls_name m)))) \<Longrightarrow>
   cls_name (fold (\<lambda>(name, dflt) m. case dflt of None \<Rightarrow> m | Some v \<Rightarrow> object_setattr E m name v) ps m) = cls_name m \<and>
   dunder_dict (fold (\<lambda>(name, dflt) m. case dflt of None \<Rightarrow> m | Some v \<Rightarrow> object_setattr E m name v) ps m) = dunder_dict m \<and>
   fields_set (fold (\<lambda>(name, dflt) m. case dflt of None \<Rightarrow> m | Some v \<Rightarrow> object_setattr E m name v) ps m) = fields_set m"
proof (induction ps arbitrary: m)
  case Nil
  then show ?case by simp
next
  case (Cons p ps)
  obtain name dflt where p: "p = (name, dflt)" by (cases p)
  let ?m' = "case dflt of None \<Rightarrow> m | Some v \<Rightarrow> object_setattr E m name v"
  from Cons.prems have n: "name \<in> set (dict_keys (private_attributes (classes E (cls_name m))))"
    and sub: "set (dict_keys ps) \<subseteq> set (dict_keys (private_attributes (classes E (cls_name m))))"
    by (auto simp: p dict_keys_def)
  have m': "cls_name ?m' = cls_name m \<and> dunder_dict ?m' = dunder_dict m \<and>
            fields_set ?m' = fields_set m"
    using object_setattr_private [OF n] by (cases dflt) simp_all
  with sub have "set (dict_keys ps) \<subseteq> set (dict_keys (private_attributes (classes E (cls_name ?m'))))"
    by simp
  from Cons.IH [OF this] m' show ?case by (simp add: p)
qed

lemma init_private_attributes_frame:
  "cls_name (init_private_attributes E m) = cls_name m \<and>
   dunder_dict (init_private_attributes E m) = dunder_dict m \<and>
   fields_set (init_private_attributes E m) = fields_set m"
  unfolding init_private_attributes_def
  by (rule fold_object_setattr_frame) simp

lemma dunder_dict_construct:
  "dunder_dict (construct E c fs_arg vals) =
     dict_update (fold (construct_field vals) (dunder_fields (classes E c)) []) vals"
  by (simp add: construct_def Let_def init_private_attributes_frame)

lemma fields_set_construct:
  "fields_set (construct E c fs_arg vals) = (case fs_arg of None \<Rightarrow> dict_keys vals | Some s \<Rightarrow> s)"
  by (simp add: construct_def Let_def init_private_attributes_frame)

lemma dict_get_construct:
  assumes "distinct (dict_keys vals)" and "distinct (dict_keys (dunder_fields (classes E c)))"
  shows "dict_get (dunder_dict (construct E c fs_arg vals)) k =
           (case dict_get vals k of
              Some v \<Rightarrow> Some v
            | None \<Rightarrow>
                (case dict_get (dunder_fields (classes E c)) k of
                   None \<Rightarrow> None
                 | Some fld \<Rightarrow> filled vals k fld))"
  using assms
  by (simp add: dunder_dict_construct dict_get_update dict_get_fold_construct_field
      split: option.splits)

lemma dict_keys_construct:
  assumes "distinct (dict_keys vals)" and "distinct (dict_keys (dunder_fields (classes E c)))"
  shows "set (dict_keys (dunder_dict (construct E c fs_arg vals))) \<subseteq>
           set (dict_keys vals) \<union> set (dict_keys (dunder_fields (classes E c)))"
proof
  fix k
  assume "k \<in> set (dict_keys (dunder_dict (construct E c fs_arg vals)))"
  then have "dict_get (dunder_dict (construct E c fs_arg vals)) k \<noteq> None"
    by (simp add: dict_get_None_iff)
  then have "dict_get vals k \<noteq> None \<or> dict_get (dunder_fields (classes E c)) k \<noteq> None"
    using assms by (auto simp: dict_get_construct split: option.splits)
  then show "k \<in> set (dict_keys vals) \<union> set (dict_keys (dunder_fields (classes E c)))"
    by (auto simp: dict_get_None_iff)
qed

text \<open>
  Claim C8, as amended. \<open>construct\<close> with no \<open>_fields_set\<close> argument, for keyword
  arguments \<open>vals\<close> (a dictionary) and a class whose field table is a dictionary: the
  new instance's \<open>fields_set\<close> is the set of supplied keys; every supplied entry is in
  its values, whether or not the key is a declared field; and every declared field that
  is not required, whose name is not a supplied key and which is not supplied under its
  alternative alias either, holds its declared default.
\<close>

theorem construct_defaults_and_supplied:
  assumes "distinct (dict_keys vals)"
    and "distinct (dict_keys (dunder_fields (classes E c)))"
  shows "set (fields_set (construct E c None vals)) = set (dict_keys vals) \<and>
         (\<forall>(k, v) \<in> set vals. dict_get (dunder_dict (construct E c None vals)) k = Some v) \<and>
         (\<forall>(n, fld) \<in> set (dunder_fields (classes E c)).
            \<not> required fld \<and> n \<notin> set (dict_keys vals) \<and>
            \<not> (alt_alias fld \<and> field_alias fld \<in> set (dict_keys vals)) \<longrightarrow>
            dict_get (dunder_dict (construct E c None vals)) n = Some (get_default fld))"
proof (intro conjI)
  show "set (fields_set (construct E c None vals)) = set (dict_keys vals)"
    by (simp add: fields_set_construct)
  show "\<forall>(k, v) \<in> set vals. dict_get (dunder_dict (construct E c None vals)) k = Some v"
  proof (clarify)
    fix k v
    assume "(k, v) \<in> set vals"
    with assms(1) have "dict_get vals k = Some v" by (simp add: dict_get_Some_iff)
    then show "dict_get (dunder_dict (construct E c None vals)) k = Some v"
      using assms by (simp add: dict_get_construct)
  qed
  show "\<forall>(n, fld) \<in> set (dunder_fields (classes E c)).
            \<not> required fld \<and> n \<notin> set (dict_keys vals) \<and>
            \<not> (alt_alias fld \<and> field_alias fld \<in> set (dict_keys vals)) \<longrightarrow>
            dict_get (dunder_dict (construct E c None vals)) n = Some (get_default fld)"
  proof (clarify)
    fix n fld
    assume nf: "(n, fld) \<in> set (dunder_fields (classes E c))"
      and r: "\<not> required fld" and n: "n \<notin> set (dict_keys vals)"
      and a: "\<not> (alt_alias fld \<and> field_alias fld \<in> set (dict_keys vals))"
    from nf assms(2) have 1: "dict_get (dunder_fields (classes E c)) n = Some fld"
      by (simp add: dict_get_Some_iff)
    from n have 2: "dict_get vals n = None" by (simp add: dict_get_None_iff)
    from a have 3: "(if alt_alias fld then dict_get vals (field_alias fld) else None) = None"
      by (auto simp: dict_get_None_iff)
    show "dict_get (dunder_dict (construct E c None vals)) n = Some (get_default fld)"
      using assms 1 2 3 r by (simp add: dict_get_construct filled_def)
  qed
qed

theorem construct_defaults_and_supplied_witness:
  "distinct (dict_keys [(''name'', VStr ''A''), (''extra'', VInt 1)]) \<and>
   distinct (dict_keys (dunder_fields (classes example_env ''Person''))) \<and>
   set (fields_set (construct example_env ''Person'' None
                      [(''name'', VStr ''A''), (''extra'', VInt 1)])) = {''name'', ''extra''} \<and>
   dict_get (dunder_dict (construct example_env ''Person'' None
                            [(''name'', VStr ''A''), (''extra'', VInt 1)])) ''name'' =
     Some (VStr ''A'') \<and>
   dict_get (dunder_dict (construct example_env ''Person'' None
                            [(''name'', VStr ''A''), (''extra'', VInt 1)])) ''extra'' =
     Some (VInt 1) \<and>
   dict_get (dunder_dict (construct example_env ''Person'' None
                            [(''name'', VStr ''A''), (''extra'', VInt 1)])) ''age'' =
     Some (VInt 0)"
proof -
  let ?vals = "[(''name'', VStr ''A''), (''extra'', VInt 1)]"
  let ?m = "construct example_env ''Person'' None ?vals"
  have 1: "distinct (dict_keys ?vals)" by (simp add: dict_keys_def)
  have 2: "distinct (dict_keys (dunder_fields (classes example_env ''Person'')))"
    by (simp add: example_env_def person_class_def dict_keys_def)
  note t = construct_defaults_and_supplied [OF 1 2]
  from t have "set (fields_set ?m) = set (dict_keys ?vals)" by (rule conjunct1)
  then have a: "set (fields_set ?m) = {''name'', ''extra''}" by (simp add: dict_keys_def)
  from t have "\<forall>(k, v) \<in> set ?vals. dict_get (dunder_dict ?m) k = Some v"
    by (rule conjunct1 [OF conjunct2])
  then have b: "dict_get (dunder_dict ?m) ''name'' = Some (VStr ''A'')"
    and c: "dict_get (dunder_dict ?m) ''extra'' = Some (VInt 1)"
    by simp_all
  from t have "\<forall>(n, fld) \<in> set (dunder_fields (classes example_env ''Person'')).
            \<not> required fld \<and> n \<notin> set (dict_keys ?vals) \<and>
            \<not> (alt_alias fld \<and> field_alias fld \<in> set (dict_keys ?vals)) \<longrightarrow>
            dict_get (dunder_dict ?m) n = Some (get_default fld)"
    by (rule conjunct2 [OF conjunct2])
  then have d: "dict_get (dunder_dict ?m) ''age'' = Some (VInt 0)"
    by (simp add: example_env_def person_class_def mk_field_def dict_keys_def get_default_def)
  from 1 2 a b c d show ?thesis by (intro conjI)
qed

text \<open>
  Claim C8 as stated does not hold: the field \<open>x\<close> of the class \<open>Aliased\<close> is not
  required and has the default 0; its name is not a key of the supplied mapping, which
  holds 5 under the alias \<open>X\<close>; the new instance holds 5 under \<open>x\<close>, not the default.
\<close>

theorem construct_alias_not_default:
  "dict_get (dunder_fields (classes example_env ''Aliased'')) ''x'' = Some aliased_field \<and>
   \<not> required aliased_field \<and>
   get_default aliased_field = VInt 0 \<and>
   ''x'' \<notin> set (dict_keys [(''X'', VInt 5)]) \<and>
   dict_get (dunder_dict (construct example_env ''Aliased'' None [(''X'', VInt 5)])) ''x'' =
     Some (VInt 5)"
  by (simp add: example_env_def aliased_class_def aliased_field_def mk_field_def get_default_def
      dict_keys_def construct_def construct_field_def dict_update_def
      init_private_attributes_def)

text \<open>
  Claim C10. A field \<open>n\<close> whose descriptor has \<open>alt_alias\<close> set (its alias differs
  from its name), the value \<open>v\<close> supplied under the alias and nothing under the name:
  the new instance's values hold \<open>v\<close> under the name and under the alias, and its
  \<open>fields_set\<close> holds the alias and not the name.
\<close>

theorem construct_alias:
  assumes "distinct (dict_keys vals)"
    and "distinct (dict_keys (dunder_fields (classes E c)))"
    and "dict_get (dunder_fields (classes E c)) n = Some fld"
    and "alt_alias fld"
    and "dict_get vals (field_alias fld) = Some v"
    and "n \<notin> set (dict_keys vals)"
  shows "dict_get (dunder_dict (construct E c None vals)) n = Some v \<and>
         dict_get (dunder_dict (construct E c None vals)) (field_alias fld) = Some v \<and>
         field_alias fld \<in> set (fields_set (construct E c None vals)) \<and>
         n \<notin> set (fields_set (construct E c None vals))"
proof -
  from assms(6) have "dict_get vals n = None" by (simp add: dict_get_None_iff)
  moreover from assms(5) have "field_alias fld \<in> set (dict_keys vals)"
    using dict_get_None_iff [of vals "field_alias fld"] by simp
  ultimately show ?thesis
    using assms by (simp add: dict_get_construct filled_def fields_set_construct)
qed

theorem construct_alias_witness:
  "distinct (dict_keys [(''X'', VInt 5)]) \<and>
   distinct (dict_keys (dunder_fields (classes example_env ''Aliased''))) \<and>
   dict_get (dunder_fields (classes example_env ''Aliased'')) ''x'' = Some aliased_field \<and>
   alt_alias aliased_field \<and>
   dict_get [(''X'', VInt 5)] (field_alias aliased_field) = Some (VInt 5) \<and>
   ''x'' \<notin> set (dict_keys [(''X'', VInt 5)]) \<and>
   dict_get (dunder_dict (construct example_env ''Aliased'' None [(''X'', VInt 5)])) ''x'' =
     Some (VInt 5) \<and>
   dict_get (dunder_dict (construct example_env ''Aliased'' None [(''X'', VInt 5)])) ''X'' =
     Some (VInt 5) \<and>
   ''X'' \<in> set (fields_set (construct example_env ''Aliased'' None [(''X'', VInt 5)])) \<and>
   ''x'' \<notin> set (fields_set (construct example_env ''Aliased'' None [(''X'', VInt 5)]))"
proof -
  have 1: "distinct (dict_keys [(''X'', VInt 5)])" by (simp add: dict_keys_def)
  have 2: "distinct (dict_keys (dunder_fields (classes example_env ''Aliased'')))"
    by (simp add: example_env_def aliased_class_def dict_keys_def)
  have 3: "dict_get (dunder_fields (classes example_env ''Aliased'')) ''x'' = Some aliased_field"
    by (simp add: example_env_def aliased_class_def)
  have 4: "alt_alias aliased_field" by (simp add: aliased_field_def)
  have 5: "dict_get [(''X'', VInt 5)] (field_alias aliased_field) = Some (VInt 5)"
    by (simp add: aliased_field_def mk_field_def)
  have 6: "''x'' \<notin> set (dict_keys [(''X'', VInt 5)])" by (simp add: dict_keys_def)
  have 7: "field_alias aliased_field = ''X''" by (simp add: aliased_field_def mk_field_def)
  from construct_alias [OF 1 2 3 4 5 6] 1 2 3 4 5 6 show ?thesis
    by (simp add: 7)
qed

section \<open>Controlled mutation\<close>

text \<open>
  Claim C7. Assigning a declared field that is final through \<open>__setattr__\<close> raises,
  whatever the value, the configuration and the instance's \<open>fields_set\<close> (so also when
  the field has an entry there), and the instance after the call is the instance before
  it: its values and its \<open>fields_set\<close> are unchanged. The name of a field is not the
  name of a private or reserved attribute, which \<open>__setattr__\<close> stores without any
  check.
\<close>

theorem setattr_final_fails:
  assumes "dict_get (dunder_fields (classes E (cls_name x))) f = Some fld"
    and "final fld"
    and "f \<notin> set (dict_keys (private_attributes (classes E (cls_name x))))"
    and "f \<notin> set (DUNDER_ATTRIBUTES E)"
  shows "(\<exists>err. fst (dunder_setattr E x f v) = Some err) \<and> snd (dunder_setattr E x f v) = x"
proof -
  from assms(1) have "f \<in> set (dict_keys (dunder_fields (classes E (cls_name x))))"
    using dict_get_None_iff [of "dunder_fields (classes E (cls_name x))" f] by simp
  then show ?thesis
    using assms by (simp add: dunder_setattr_def Let_def)
qed

theorem setattr_final_fails_witness:
  "dict_get (dunder_fields (classes example_env (cls_name locked_instance))) ''ident'' =
     Some final_field \<and>
   final final_field \<and>
   ''ident'' \<in> set (fields_set locked_instance) \<and>
   ''ident'' \<notin> set (dict_keys (private_attributes (classes example_env (cls_name locked_instance)))) \<and>
   ''ident'' \<notin> set (DUNDER_ATTRIBUTES example_env) \<and>
   fst (dunder_setattr example_env locked_instance ''ident'' (VInt 8)) =
     Some (TypeError_final ''Locked'' ''ident'') \<and>
   snd (dunder_setattr example_env locked_instance ''ident'' (VInt 8)) = locked_instance"
proof -
  have 1: "dict_get (dunder_fields (classes example_env (cls_name locked_instance))) ''ident'' =
     Some final_field"
    by (simp add: example_env_def locked_instance_def locked_class_def)
  have 2: "final final_field" by (simp add: final_field_def)
  have 3: "''ident'' \<notin> set (dict_keys (private_attributes (classes example_env (cls_name locked_instance))))"
    by (simp add: example_env_def locked_instance_def locked_class_def dict_keys_def)
  have 4: "''ident'' \<notin> set (DUNDER_ATTRIBUTES example_env)"
    by (simp add: example_env_def)
  have 5: "''ident'' \<in> set (fields_set locked_instance)"
    by (simp add: locked_instance_def)
  have 6: "fst (dunder_setattr example_env locked_instance ''ident'' (VInt 8)) =
     Some (TypeError_final ''Locked'' ''ident'')"
    by (simp add: dunder_setattr_def example_env_def locked_instance_def locked_class_def
        default_config_def dict_keys_def final_field_def Let_def)
  from setattr_final_fails [OF 1 2 3 4, of "VInt 8"] 1 2 3 4 5 6 show ?thesis
    by (intro conjI) simp_all
qed

section \<open>Projection\<close>

lemma iter_loop_emitted:
  "iter_loop E c fl (Some ks) vi ve its = Inr out \<Longrightarrow> (k', v') \<in> set out \<Longrightarrow>
   k' \<in> emitted_key E c fl ` set ks"
proof (induction its arbitrary: out)
  case Nil
  then show ?case by simp
next
  case (Cons p its)
  obtain k v where p: "p = (k, v)" by (cases p)
  show ?case
    using Cons.prems Cons.IH
    by (auto simp: p emitted_key_def Let_def split: if_splits sum.splits)
qed

lemma calculate_keys_exclude_unset:
  "\<exists>ks. calculate_keys x inc exc True upd = Some ks \<and> set ks \<subseteq> set (fields_set x)"
  by (auto simp: calculate_keys_def Let_def split: option.splits list.splits)

lemma model_dict_exclude_unset_emitted:
  assumes "exclude_unset fl"
    and "model_dict E x inc exc fl None = Inr d"
  shows "set (dict_keys d) \<subseteq> emitted_key E (cls_name x) fl ` set (fields_set x)"
proof -
  let ?fl = "fl\<lparr>to_dict := True, exclude_unset := True\<rparr>"
  obtain ks where ks: "calculate_keys x inc exc True None = Some ks"
    and sub: "set ks \<subseteq> set (fields_set x)"
    using calculate_keys_exclude_unset by blast
  from assms obtain out where
    out: "iter_loop E (cls_name x) ?fl (Some ks) inc exc (dunder_dict x) = Inr out"
    and d: "d = dict_of out"
    by (auto simp: model_dict.simps model_iter.simps ks Let_def split: sum.splits)
  have e: "emitted_key E (cls_name x) ?fl = emitted_key E (cls_name x) fl"
    by (rule ext) (simp add: emitted_key_def)
  have "set (dict_keys out) \<subseteq> emitted_key E (cls_name x) ?fl ` set ks"
    using iter_loop_emitted [OF out] by (fastforce simp: dict_keys_def)
  with sub show ?thesis
    unfolding d dict_keys_dict_of e by blast
qed

lemma emitted_key_name: "\<not> by_alias fl \<Longrightarrow> emitted_key E c fl k = k"
  by (simp add: emitted_key_def)

lemma projection_returns:
  shows "\<not> exclude_defaults fl \<Longrightarrow> inc = None \<Longrightarrow> exc = None \<Longrightarrow>
         \<exists>r. get_value E c fl inc exc v = Inr r"
    and "\<not> exclude_defaults fl \<Longrightarrow> inc = None \<Longrightarrow> exc = None \<Longrightarrow>
         \<exists>r. model_dict E self inc exc fl sd = Inr r"
    and "inc = None \<Longrightarrow> exc = None \<Longrightarrow> \<exists>r. model_copy E self inc exc upd deep = Inr r"
    and "\<not> exclude_defaults fl \<Longrightarrow> inc = None \<Longrightarrow> exc = None \<Longrightarrow>
         \<exists>r. model_iter E self fl inc exc = Inr r"
    and "\<not> exclude_defaults fl \<Longrightarrow> vi = None \<Longrightarrow> ve = None \<Longrightarrow>
         \<exists>r. iter_loop E c fl ak vi ve its = Inr r"
    and "\<not> exclude_defaults fl \<Longrightarrow> vi = None \<Longrightarrow> ve = None \<Longrightarrow>
         \<exists>r. get_value_items E c fl vi ve d = Inr r"
    and "\<not> exclude_defaults fl \<Longrightarrow> vi = None \<Longrightarrow> ve = None \<Longrightarrow>
         \<exists>r. get_value_seq E c fl vi ve i xs = Inr r \<and> length r = length xs"
proof (induction E c fl inc exc v and E self inc exc fl sd and E self inc exc upd deep
         and E self fl inc exc and E c fl ak vi ve its and E c fl vi ve d and E c fl vi ve i xs
       rule: get_value_model_dict_model_copy_model_iter_iter_loop_get_value_items_get_value_seq.induct)
  case (1 E c fl inc exc v)
  show ?case
  proof (cases "to_dict fl")
    case True
    with 1 obtain r where "model_dict E v inc exc fl None = Inr r" by blast
    with True show ?thesis by (simp split: option.splits)
  next
    case False
    with 1 obtain r where "model_copy E v inc exc None False = Inr r" by blast
    with False show ?thesis by simp
  qed
next
  case (2 E c fl inc exc d)
  then show ?case by (auto simp: truthy_items_def split: sum.splits)
next
  case (3 E c fl inc exc kind xs)
  from 3 obtain r where
    "get_value_seq E c fl (truthy_items inc) (truthy_items exc) 0 xs = Inr r \<and>
     length r = length xs"
    by (auto simp: truthy_items_def)
  then show ?case by (simp split: seq_kind.splits)
next
  case (6 E self inc exc fl skip_defaults)
  then show ?case by (auto simp: model_dict.simps Let_def split: sum.splits)
next
  case (7 E self inc exc update deep)
  then show ?case by (auto simp: model_copy.simps Let_def split: sum.splits)
next
  case (8 E self fl inc exc)
  then show ?case by (auto simp: model_iter.simps Let_def)
next
  case (10 E c fl allowed_keys value_include value_exclude field_key v rest)
  note nd = \<open>\<not> exclude_defaults fl\<close>
  note vi = \<open>value_include = None\<close> and ve = \<open>value_exclude = None\<close>
  show ?case
  proof (cases "(case allowed_keys of None \<Rightarrow> False | Some ks \<Rightarrow> field_key \<notin> set ks) \<or>
                exclude_none fl \<and> v = VNone")
    case True
    from "10.IH"(1) [OF True nd vi ve] True show ?thesis by auto
  next
    case False
    from nd have nd': "\<not> (exclude_defaults fl \<and>
        (case dict_get (dunder_fields (classes E c)) field_key of None \<Rightarrow> False
         | Some model_field \<Rightarrow> \<not> required model_field))"
      by simp
    have b1: "Option.bind value_include (\<lambda>vi. for_element vi (VStr field_key)) = None"
      and b2: "Option.bind value_exclude (\<lambda>ve. for_element ve (VStr field_key)) = None"
      by (simp_all add: vi ve)
    have "\<exists>b. (if to_dict fl \<or> value_include \<noteq> None \<or> value_exclude \<noteq> None
            then get_value E c fl
                   (Option.bind value_include (\<lambda>vi. for_element vi (VStr field_key)))
                   (Option.bind value_exclude (\<lambda>ve. for_element ve (VStr field_key))) v
            else Inr v) = Inr b"
      using "10.IH"(2) [OF False nd' refl _ nd b1 b2]
      by (cases "to_dict fl \<or> value_include \<noteq> None \<or> value_exclude \<noteq> None") simp_all
    then obtain b where b: "(if to_dict fl \<or> value_include \<noteq> None \<or> value_exclude \<noteq> None
            then get_value E c fl
                   (Option.bind value_include (\<lambda>vi. for_element vi (VStr field_key)))
                   (Option.bind value_exclude (\<lambda>ve. for_element ve (VStr field_key))) v
            else Inr v) = Inr b" ..
    from "10.IH"(3) [OF False nd' refl b nd vi ve] obtain r where
      "iter_loop E c fl allowed_keys value_include value_exclude rest = Inr r" ..
    with False nd b show ?thesis by (simp add: Let_def)
  qed
next
  case (12 E c fl value_include value_exclude k v rest)
  then show ?case by (auto split: sum.splits)
next
  case (14 E c fl value_include value_exclude i v rest)
  then show ?case by (auto split: sum.splits)
qed simp_all

text \<open>
  Claim C9. After any sequence of assignments through \<open>__setattr__\<close>, \<open>dict\<close> with
  \<open>exclude_unset\<close> set, for any \<open>include\<close>, \<open>exclude\<close> and any other flags,
  returns a dictionary each of whose keys is the emitted key of a member of the
  instance's \<open>fields_set\<close>: with \<open>by_alias\<close> off (as in
  \<open>dict(exclude_unset=True)\<close>) every key is itself a member of \<open>fields_set\<close>, with
  \<open>by_alias\<close> on it is the alias of one. A dictionary is returned unless
  \<open>exclude_defaults\<close> is set as well or an \<open>include\<close> or \<open>exclude\<close>
  specification is given (one that filters an element out of a named tuple makes the
  rebuilding of that tuple raise a \<open>TypeError\<close>).
\<close>

theorem exclude_unset_only_set_keys:
  assumes "exclude_unset fl"
  shows "case model_dict E (setattrs E x ops) inc exc fl None of
           Inr d \<Rightarrow>
             set (dict_keys d) \<subseteq>
               emitted_key E (cls_name (setattrs E x ops)) fl ` set (fields_set (setattrs E x ops)) \<and>
             (\<not> by_alias fl \<longrightarrow> set (dict_keys d) \<subseteq> set (fields_set (setattrs E x ops)))
         | Inl err \<Rightarrow> exclude_defaults fl \<or> inc \<noteq> None \<or> exc \<noteq> None"
proof (cases "model_dict E (setattrs E x ops) inc exc fl None")
  case (Inl err)
  have "exclude_defaults fl \<or> inc \<noteq> None \<or> exc \<noteq> None"
  proof (rule ccontr)
    assume "\<not> (exclude_defaults fl \<or> inc \<noteq> None \<or> exc \<noteq> None)"
    then have "\<not> exclude_defaults fl" and "inc = None" and "exc = None" by auto
    from projection_returns(2) [OF this] obtain r where
      "model_dict E (setattrs E x ops) inc exc fl None = Inr r" by blast
    with Inl show False by simp
  qed
  with Inl show ?thesis by simp
next
  case (Inr d)
  from model_dict_exclude_unset_emitted [OF assms Inr]
  have 1: "set (dict_keys d) \<subseteq>
      emitted_key E (cls_name (setattrs E x ops)) fl ` set (fields_set (setattrs E x ops))" .
  then have "\<not> by_alias fl \<longrightarrow> set (dict_keys d) \<subseteq> set (fields_set (setattrs E x ops))"
    by (auto simp: emitted_key_name)
  with 1 Inr show ?thesis by simp
qed

lemma setattrs_person_example:
  "setattrs example_env person_instance [(''nick'', VStr ''B''), (''name'', VStr ''B'')] =
     Model ''Person'' [(''name'', VStr ''B''), (''age'', VInt 0)] [''name''] []"
  by (simp add: setattrs_def dunder_setattr_def example_env_def person_class_def
      person_instance_def default_config_def dict_keys_def mk_field_def Let_def
      fields_set_add_def with_dict_def)

lemma model_dict_person_example:
  "model_dict example_env (Model ''Person'' [(''name'', VStr ''B''), (''age'', VInt 0)] [''name''] [])
      None None (no_flags\<lparr>exclude_unset := True\<rparr>) None = Inr [(''name'', VStr ''B'')]"
  by (simp add: model_dict.simps model_iter.simps no_flags_def calculate_keys_def
      example_env_def person_class_def mk_field_def dict_of_def dict_update_def truthy_items_def)

theorem exclude_unset_only_set_keys_witness:
  "exclude_unset (no_flags\<lparr>exclude_unset := True\<rparr>) \<and>
   \<not> by_alias (no_flags\<lparr>exclude_unset := True\<rparr>) \<and>
   model_dict example_env
     (setattrs example_env person_instance [(''nick'', VStr ''B''), (''name'', VStr ''B'')])
     None None (no_flags\<lparr>exclude_unset := True\<rparr>) None = Inr [(''name'', VStr ''B'')] \<and>
   set (dict_keys [(''name'', VStr ''B'')]) \<subseteq>
     set (fields_set
            (setattrs example_env person_instance [(''nick'', VStr ''B''), (''name'', VStr ''B'')]))"
proof -
  have a: "exclude_unset (no_flags\<lparr>exclude_unset := True\<rparr>)"
    and b: "\<not> by_alias (no_flags\<lparr>exclude_unset := True\<rparr>)"
    by (simp_all add: no_flags_def)
  have c: "model_dict example_env
     (setattrs example_env person_instance [(''nick'', VStr ''B''), (''name'', VStr ''B'')])
     None None (no_flags\<lparr>exclude_unset := True\<rparr>) None = Inr [(''name'', VStr ''B'')]"
    by (simp only: setattrs_person_example model_dict_person_example)
  from exclude_unset_only_set_keys [OF a, where E = example_env and x = person_instance
      and ops = "[(''nick'', VStr ''B''), (''name'', VStr ''B'')]" and inc = None and exc = None] b
  have "set (dict_keys [(''name'', VStr ''B'')]) \<subseteq>
     set (fields_set
            (setattrs example_env person_instance [(''nick'', VStr ''B''), (''name'', VStr ''B'')]))"
    by (simp add: c)
  with a b c show ?thesis by (intro conjI)
qed

text \<open>
  Claim C4 (the code departs from it). The spec's example: \<open>construct\<close> from
  \<open>{"name": "A"}\<close> gives the values \<open>name = "A"\<close>, \<open>age = 0\<close> and the
  \<open>fields_set\<close> \<open>{name}\<close>; \<open>dict(exclude_defaults=True)\<close> on that instance raises
  \<open>NameError\<close> for \<open>_missing\<close> when the loop reaches \<open>age\<close>, instead of returning
  \<open>{"name": "A"}\<close>.
\<close>

theorem exclude_defaults_raises:
  "construct example_env ''Person'' None [(''name'', VStr ''A'')] = person_instance \<and>
   model_dict example_env person_instance None None (no_flags\<lparr>exclude_defaults := True\<rparr>) None =
     Inl (NameError ''_missing'')"
  by (simp add: construct_def example_env_def person_class_def construct_field_def mk_field_def
      get_default_def dict_update_def dict_keys_def init_private_attributes_def
      person_instance_def model_dict.simps model_iter.simps no_flags_def calculate_keys_def)

subsection \<open>What the projection emits\<close>

lemma dict_set_values:
  "p \<in> set (dict_set d k v) \<Longrightarrow> p \<in> set d \<or> p = (k, v)"
  by (induction d) (auto split: if_splits)

lemma dict_update_values:
  "p \<in> set (dict_update d e) \<Longrightarrow> p \<in> set d \<or> p \<in> set e"
proof (induction e arbitrary: d)
  case Nil
  then show ?case by (simp add: dict_update_Nil)
next
  case (Cons q e)
  obtain k v where q: "q = (k, v)" by (cases q)
  from Cons.prems have "p \<in> set (dict_update (dict_set d k v) e)"
    by (simp add: q dict_update_Cons)
  then have "p \<in> set (dict_set d k v) \<or> p \<in> set e" by (rule Cons.IH)
  then show ?case using dict_set_values [of p d k v] by (auto simp: q)
qed

lemma dict_of_values: "p \<in> set (dict_of ps) \<Longrightarrow> p \<in> set ps"
  using dict_update_values [of p "[]" ps] by (simp add: dict_of_def)

lemma dict_get_mem: "dict_get d k = Some v \<Longrightarrow> (k, v) \<in> set d"
  by (induction d) (auto split: if_splits)

lemma instance_free_value_of: "instance_free (value_of u)"
  by (cases u) (simp_all add: value_of_def)

lemma projection_instance_free:
  shows "to_dict fl \<Longrightarrow> get_value E c fl inc exc v = Inr r \<Longrightarrow> instance_free r"
    and "model_dict E self inc exc fl sd = Inr d \<Longrightarrow> \<forall>p \<in> set d. instance_free (snd p)"
    and "model_copy E self inc exc upd deep = model_copy E self inc exc upd deep"
    and "to_dict fl \<Longrightarrow> model_iter E self fl inc exc = Inr out \<Longrightarrow>
         \<forall>p \<in> set out. instance_free (snd p)"
    and "to_dict fl \<Longrightarrow> iter_loop E c fl ak vi ve its = Inr out \<Longrightarrow>
         \<forall>p \<in> set out. instance_free (snd p)"
    and "to_dict fl \<Longrightarrow> get_value_items E c fl vi ve kvs = Inr out' \<Longrightarrow>
         \<forall>p \<in> set out'. instance_free (snd p)"
    and "to_dict fl \<Longrightarrow> get_value_seq E c fl vi ve i xs = Inr ys \<Longrightarrow>
         \<forall>y \<in> set ys. instance_free y"
proof (induction E c fl inc exc v and E self inc exc fl sd and E self inc exc upd deep
         and E self fl inc exc and E c fl ak vi ve its and E c fl vi ve kvs and E c fl vi ve i xs
       arbitrary: r and d and and out and out and out' and ys
       rule: get_value_model_dict_model_copy_model_iter_iter_loop_get_value_items_get_value_seq.induct)
  case (1 E c fl inc exc v)
  from "1.prems" obtain v_dict where vd: "model_dict E v inc exc fl None = Inr v_dict"
    by (auto split: sum.splits)
  from "1.IH"(1) [OF "1.prems"(1) vd] have free: "\<forall>p \<in> set v_dict. instance_free (snd p)" .
  show ?case
  proof (cases "dict_get v_dict (ROOT_KEY E)")
    case None
    with "1.prems" vd have "r = VDict (map (\<lambda>(k, x). (VStr k, x)) v_dict)" by simp
    with free show ?thesis by (auto simp: list_all_iff)
  next
    case (Some root)
    with "1.prems" vd have "r = root" by simp
    moreover from Some have "(ROOT_KEY E, root) \<in> set v_dict" by (rule dict_get_mem)
    ultimately show ?thesis using free by force
  qed
next
  case (2 E c fl inc exc d)
  then show ?case by (fastforce simp: list_all_iff split: sum.splits)
next
  case (3 E c fl inc exc kind xs)
  then show ?case by (fastforce simp: list_all_iff split: sum.splits seq_kind.splits if_splits)
next
  case (4 E c fl inc exc n underlying)
  then show ?case by (auto simp: instance_free_value_of split: if_splits)
next
  case (6 E self inc exc fl skip_defaults)
  from "6.prems" obtain pairs where
    p: "model_iter E self (fl\<lparr>to_dict := True, exclude_unset :=
          (case skip_defaults of None \<Rightarrow> exclude_unset fl | Some b \<Rightarrow> b)\<rparr>) inc exc = Inr pairs"
    and d: "d = dict_of pairs"
    by (auto simp: model_dict.simps Let_def split: sum.splits)
  from "6.IH" [OF refl _ p] have "\<forall>p \<in> set pairs. instance_free (snd p)" by simp
  then show ?case using dict_of_values [of _ pairs] by (fastforce simp: d)
next
  case (8 E self fl inc exc)
  from "8.prems" have
    "iter_loop E (cls_name self) fl (calculate_keys self inc exc (exclude_unset fl) None)
       inc exc (dunder_dict self) = Inr out"
    by (simp add: model_iter.simps Let_def)
  with "8.IH" [OF refl _ "8.prems"(1)] "8.prems"(1) show ?case by simp
next
  case (10 E c fl allowed_keys value_include value_exclude field_key v rest)
  show ?case
  proof (cases "(case allowed_keys of None \<Rightarrow> False | Some ks \<Rightarrow> field_key \<notin> set ks) \<or>
                exclude_none fl \<and> v = VNone")
    case True
    with "10.prems" have
      "iter_loop E c fl allowed_keys value_include value_exclude rest = Inr out" by auto
    from "10.IH"(1) [OF True "10.prems"(1) this] show ?thesis .
  next
    case False
    from False "10.prems" have nd: "\<not> (exclude_defaults fl \<and>
        (case dict_get (dunder_fields (classes E c)) field_key of None \<Rightarrow> False
         | Some model_field \<Rightarrow> \<not> required model_field))"
      by (auto split: if_splits)
    from "10.prems"(1) have td: "to_dict fl \<or> value_include \<noteq> None \<or> value_exclude \<noteq> None"
      by simp
    from False nd "10.prems" td obtain v' rest' where
      gv: "get_value E c fl
             (Option.bind value_include (\<lambda>vi. for_element vi (VStr field_key)))
             (Option.bind value_exclude (\<lambda>ve. for_element ve (VStr field_key))) v = Inr v'"
      and lp: "iter_loop E c fl allowed_keys value_include value_exclude rest = Inr rest'"
      and out: "set out = insert (emitted_key E c fl field_key, v') (set rest')"
      by (auto simp: Let_def emitted_key_def split: sum.splits if_splits)
    from "10.IH"(2) [OF False nd refl td "10.prems"(1) gv] have 1: "instance_free v'" .
    from gv td have "(if to_dict fl \<or> value_include \<noteq> None \<or> value_exclude \<noteq> None
            then get_value E c fl
                   (Option.bind value_include (\<lambda>vi. for_element vi (VStr field_key)))
                   (Option.bind value_exclude (\<lambda>ve. for_element ve (VStr field_key))) v
            else Inr v) = Inr v'" by simp
    from "10.IH"(3) [OF False nd refl this "10.prems"(1) lp]
    have "\<forall>p \<in> set rest'. instance_free (snd p)" .
    with 1 out show ?thesis by simp
  qed
next
  case (12 E c fl value_include value_exclude k v rest)
  then show ?case by (fastforce split: sum.splits if_splits)
next
  case (14 E c fl value_include value_exclude i v rest)
  then show ?case by (fastforce split: sum.splits if_splits)
qed auto

lemma eq_view_id: "instance_free v \<Longrightarrow> eq_view E v = v"
proof (induction v rule: instance_free.induct)
  case (2 d)
  have "map (\<lambda>(k, v). (k, eq_view E v)) d = map (\<lambda>p. p) d"
  proof (rule map_cong [OF refl])
    fix p
    assume p: "p \<in> set d"
    obtain k v where kv: "p = (k, v)" by (cases p)
    from p "2.prems" have "instance_free v" by (auto simp: list_all_iff kv)
    with "2.IH" [OF p kv [symmetric]] show "(case p of (k, v) \<Rightarrow> (k, eq_view E v)) = p"
      by (simp add: kv)
  qed
  then show ?case by simp
next
  case (3 kind xs)
  have "map (eq_view E) xs = map (\<lambda>x. x) xs"
  proof (rule map_cong [OF refl])
    fix x
    assume x: "x \<in> set xs"
    with "3.prems" have "instance_free x" by (auto simp: list_all_iff)
    with "3.IH" [OF x] show "eq_view E x = x" by simp
  qed
  then show ?case by simp
qed simp_all

lemma data_eq_list_refl: "\<forall>x \<in> set xs. data_eq x x \<Longrightarrow> data_eq_list xs xs"
  by (induction xs) simp_all

lemma data_eq_lookup_mem: "(k, v') \<in> set d' \<Longrightarrow> data_eq v v' \<Longrightarrow> data_eq_lookup v k d'"
  by (induction d') auto

lemma data_eq_entries_sub:
  "\<forall>p \<in> set d. p \<in> set d' \<and> data_eq (snd p) (snd p) \<Longrightarrow> data_eq_entries d d'"
proof (induction d)
  case Nil
  then show ?case by simp
next
  case (Cons p d)
  obtain k v where kv: "p = (k, v)" by (cases p)
  from Cons.prems have "(k, v) \<in> set d'" and "data_eq v v" by (simp_all add: kv)
  then have "data_eq_lookup v k d'" by (rule data_eq_lookup_mem)
  moreover from Cons have "data_eq_entries d d'" by simp
  ultimately show ?case by (simp add: kv)
qed

lemma data_eq_refl: "instance_free v \<Longrightarrow> data_eq v v"
proof (induction v rule: instance_free.induct)
  case (2 d)
  have "data_eq_entries d d"
  proof (rule data_eq_entries_sub, rule ballI)
    fix p
    assume p: "p \<in> set d"
    obtain k v where kv: "p = (k, v)" by (cases p)
    from p "2.prems" have "instance_free v" by (auto simp: list_all_iff kv)
    with "2.IH" [OF p kv [symmetric]] p show "p \<in> set d \<and> data_eq (snd p) (snd p)"
      by (simp add: kv)
  qed
  then show ?case by simp
next
  case (3 kind xs)
  have "data_eq_list xs xs"
  proof (rule data_eq_list_refl, rule ballI)
    fix x
    assume x: "x \<in> set xs"
    with "3.prems" have "instance_free x" by (auto simp: list_all_iff)
    with "3.IH" [OF x] show "data_eq x x" by simp
  qed
  then show ?case by simp
qed simp_all

lemma model_dict_no_flags:
  "model_dict E m None None (no_flags\<lparr>to_dict := True\<rparr>) None =
   model_dict E m None None no_flags None"
  by (simp add: model_dict.simps no_flags_def)

lemma self_dict_returns: "\<exists>d. model_dict E m None None no_flags None = Inr d"
  by (rule projection_returns(2)) (simp_all add: no_flags_def)

lemma instance_free_eq_view: "instance_free (eq_view E v)"
proof (induction E v rule: eq_view.induct)
  case (1 E m)
  obtain d where d: "model_dict E m None None no_flags None = Inr d"
    using self_dict_returns by blast
  from projection_instance_free(2) [OF d] show ?case
    by (auto simp: d list_all_iff)
next
  case (2 E d)
  then show ?case by (fastforce simp: list_all_iff)
next
  case (3 E kind xs)
  then show ?case by (auto simp: list_all_iff)
qed simp_all

lemma py_eq_view: "eq_view E a = eq_view E b \<Longrightarrow> py_eq E a b"
  by (simp add: py_eq_def data_eq_refl instance_free_eq_view)

lemma get_value_items_view:
  "\<forall>p \<in> set d. \<exists>v'. get_value E c fl None None (snd p) = Inr v' \<and>
                       eq_view E v' = eq_view E (snd p) \<Longrightarrow>
   \<exists>d'. get_value_items E c fl None None d = Inr d' \<and>
        map (\<lambda>(k, v). (k, eq_view E v)) d' = map (\<lambda>(k, v). (k, eq_view E v)) d"
proof (induction d)
  case Nil
  then show ?case by simp
next
  case (Cons p d)
  obtain k v where kv: "p = (k, v)" by (cases p)
  from Cons.prems obtain v' where v': "get_value E c fl None None v = Inr v'"
    and e: "eq_view E v' = eq_view E v" by (auto simp: kv)
  from Cons obtain d' where d': "get_value_items E c fl None None d = Inr d'"
    and m: "map (\<lambda>(k, v). (k, eq_view E v)) d' = map (\<lambda>(k, v). (k, eq_view E v)) d"
    by auto
  show ?case by (simp add: kv v' d' e m)
qed

lemma get_value_seq_view:
  "\<forall>v \<in> set xs. \<exists>v'. get_value E c fl None None v = Inr v' \<and> eq_view E v' = eq_view E v \<Longrightarrow>
   \<exists>ys. get_value_seq E c fl None None i xs = Inr ys \<and> length ys = length xs \<and>
        map (eq_view E) ys = map (eq_view E) xs"
proof (induction xs arbitrary: i)
  case Nil
  then show ?case by simp
next
  case (Cons v xs)
  from Cons.prems obtain v' where v': "get_value E c fl None None v = Inr v'"
    and e: "eq_view E v' = eq_view E v" by auto
  from Cons.prems have "\<forall>v \<in> set xs. \<exists>v'. get_value E c fl None None v = Inr v' \<and>
      eq_view E v' = eq_view E v" by simp
  from Cons.IH [OF this, of "i + 1"] obtain ys where
    ys: "get_value_seq E c fl None None (i + 1) xs = Inr ys" and l: "length ys = length xs"
    and m: "map (eq_view E) ys = map (eq_view E) xs" by auto
  show ?case by (simp add: v' ys e l m)
qed

lemma get_value_round_trips:
  assumes "round_trips E raw v"
    and "raw = use_enum_values (dunder_config (classes E c))"
  shows "\<exists>v'. get_value E c (no_flags\<lparr>to_dict := True\<rparr>) None None v = Inr v' \<and>
              eq_view E v' = eq_view E v"
  using assms
proof (induction E raw v rule: round_trips.induct)
  case (1 E raw m)
  let ?F = "no_flags\<lparr>to_dict := True\<rparr>"
  from "1.prems" obtain d where d: "model_dict E m None None no_flags None = Inr d"
    and r: "ROOT_KEY E \<notin> set (dict_keys d)"
    by (auto split: sum.splits)
  from r have n: "dict_get d (ROOT_KEY E) = None" by (simp add: dict_get_None_iff)
  have td: "to_dict ?F" by simp
  have g: "get_value E c ?F None None (VModel m) = Inr (VDict (map (\<lambda>(k, x). (VStr k, x)) d))"
    by (simp add: model_dict_no_flags d n)
  have "map (\<lambda>(k, v). (k, eq_view E v)) (map (\<lambda>(k, x). (VStr k, x)) d) =
        map (\<lambda>(k, x). (VStr k, x)) d"
  proof -
    have "map (\<lambda>p. (VStr (fst p), eq_view E (snd p))) d = map (\<lambda>p. (VStr (fst p), snd p)) d"
    proof (rule map_cong [OF refl])
      fix p
      assume "p \<in> set d"
      with projection_instance_free(2) [OF d] have "instance_free (snd p)" by simp
      then show "(VStr (fst p), eq_view E (snd p)) = (VStr (fst p), snd p)"
        by (simp add: eq_view_id)
    qed
    then show ?thesis by (simp add: case_prod_beta comp_def)
  qed
  then have "eq_view E (VDict (map (\<lambda>(k, x). (VStr k, x)) d)) = eq_view E (VModel m)"
    by (simp add: d)
  with g show ?case by simp
next
  case (2 E raw n u)
  then show ?case by simp
next
  case (3 E raw d)
  have "\<forall>p \<in> set d. \<exists>v'. get_value E c (no_flags\<lparr>to_dict := True\<rparr>) None None (snd p) = Inr v' \<and>
                       eq_view E v' = eq_view E (snd p)"
  proof
    fix p
    assume p: "p \<in> set d"
    obtain k v where kv: "p = (k, v)" by (cases p)
    from p "3.prems"(1) have "round_trips E raw v" by (auto simp: list_all_iff kv)
    from "3.IH" [OF p kv [symmetric] this "3.prems"(2)]
    show "\<exists>v'. get_value E c (no_flags\<lparr>to_dict := True\<rparr>) None None (snd p) = Inr v' \<and>
               eq_view E v' = eq_view E (snd p)"
      by (simp add: kv)
  qed
  from get_value_items_view [OF this] show ?case
    by (auto simp: truthy_items_def)
next
  case (4 E raw kind xs)
  have "\<forall>v \<in> set xs. \<exists>v'. get_value E c (no_flags\<lparr>to_dict := True\<rparr>) None None v = Inr v' \<and>
                       eq_view E v' = eq_view E v"
  proof
    fix v
    assume v: "v \<in> set xs"
    with "4.prems"(1) have "round_trips E raw v" by (auto simp: list_all_iff)
    from "4.IH" [OF v this "4.prems"(2)]
    show "\<exists>v'. get_value E c (no_flags\<lparr>to_dict := True\<rparr>) None None v = Inr v' \<and>
               eq_view E v' = eq_view E v" .
  qed
  from get_value_seq_view [OF this, of 0] show ?case
    by (auto simp: truthy_items_def split: seq_kind.splits)
qed simp_all

lemma iter_loop_view:
  assumes "\<forall>p \<in> set its. \<exists>v'. get_value E c fl None None (snd p) = Inr v' \<and>
                         eq_view E v' = eq_view E (snd p)"
    and "to_dict fl" and "\<not> by_alias fl" and "\<not> exclude_none fl" and "\<not> exclude_defaults fl"
  shows "\<exists>out. iter_loop E c fl None None None its = Inr out \<and>
               dict_keys out = dict_keys its \<and>
               (\<forall>k v. dict_get its k = Some v \<longrightarrow>
                  (\<exists>v'. dict_get out k = Some v' \<and> eq_view E v' = eq_view E v))"
  using assms(1)
proof (induction its)
  case Nil
  then show ?case by (simp add: dict_keys_def)
next
  case (Cons p its)
  obtain k v where kv: "p = (k, v)" by (cases p)
  from Cons.prems obtain v' where v': "get_value E c fl None None v = Inr v'"
    and e: "eq_view E v' = eq_view E v" by (auto simp: kv)
  from Cons obtain out where out: "iter_loop E c fl None None None its = Inr out"
    and ks: "dict_keys out = dict_keys its"
    and vs: "\<forall>k v. dict_get its k = Some v \<longrightarrow>
               (\<exists>v'. dict_get out k = Some v' \<and> eq_view E v' = eq_view E v)"
    by auto
  have "iter_loop E c fl None None None (p # its) = Inr ((k, v') # out)"
    using assms(2-5) by (simp add: kv v' out)
  moreover have "dict_keys ((k, v') # out) = dict_keys (p # its)"
    using ks by (simp add: dict_keys_def kv)
  moreover have "\<forall>k' w. dict_get (p # its) k' = Some w \<longrightarrow>
      (\<exists>w'. dict_get ((k, v') # out) k' = Some w' \<and> eq_view E w' = eq_view E w)"
    using vs e by (auto simp: kv)
  ultimately show ?case by blast
qed

subsection \<open>Projection followed by construction\<close>

lemma model_dict_round_trips:
  assumes "distinct (dict_keys (dunder_dict x))"
    and "\<forall>(k, v) \<in> set (dunder_dict x).
           round_trips E (use_enum_values (dunder_config (classes E (cls_name x)))) v"
  shows "\<exists>d. model_dict E x None None no_flags None = Inr d \<and>
             dict_keys d = dict_keys (dunder_dict x) \<and>
             (\<forall>k v. dict_get (dunder_dict x) k = Some v \<longrightarrow>
                (\<exists>v'. dict_get d k = Some v' \<and> eq_view E v' = eq_view E v))"
proof -
  let ?F = "no_flags\<lparr>to_dict := True\<rparr>"
  have "\<forall>p \<in> set (dunder_dict x). \<exists>v'. get_value E (cls_name x) ?F None None (snd p) = Inr v' \<and>
          eq_view E v' = eq_view E (snd p)"
  proof
    fix p
    assume "p \<in> set (dunder_dict x)"
    with assms(2) have
      "round_trips E (use_enum_values (dunder_config (classes E (cls_name x)))) (snd p)"
      by auto
    then show "\<exists>v'. get_value E (cls_name x) ?F None None (snd p) = Inr v' \<and>
          eq_view E v' = eq_view E (snd p)"
      by (rule get_value_round_trips) simp
  qed
  from iter_loop_view [OF this] obtain out where
    out: "iter_loop E (cls_name x) ?F None None None (dunder_dict x) = Inr out"
    and ks: "dict_keys out = dict_keys (dunder_dict x)"
    and vs: "\<forall>k v. dict_get (dunder_dict x) k = Some v \<longrightarrow>
               (\<exists>v'. dict_get out k = Some v' \<and> eq_view E v' = eq_view E v)"
    by (auto simp: no_flags_def)
  from out have "model_iter E x ?F None None = Inr out"
    by (simp add: model_iter.simps calculate_keys_def no_flags_def)
  moreover from ks assms(1) have "dict_of out = out" by (simp add: dict_of_distinct)
  ultimately have "model_dict E x None None no_flags None = Inr out"
    by (simp add: model_dict.simps no_flags_def)
  with ks vs show ?thesis by blast
qed

text \<open>
  Claim C5, as amended. Let \<open>x\<close> be an instance with no key \<open>cls\<close> and no key
  \<open>_fields_set\<close> among its values, each of which, outside nested instances, holds no
  member of an enumeration when the class of \<open>x\<close> emits raw enumeration values, and no
  nested instance whose own \<open>dict()\<close> has a \<open>__root__\<close> entry. Then the full
  projection \<open>x.dict()\<close> returns a dictionary \<open>d\<close>, \<open>construct(**d)\<close> returns an
  instance \<open>m\<close>, under every key of \<open>x\<close> the value of \<open>m\<close> is equal (Python's
  \<open>==\<close>) to the value of \<open>x\<close>, and the other keys of \<open>m\<close>, if any, are declared
  fields that \<open>x\<close> lacks and \<open>construct\<close> fills in.
\<close>

theorem project_then_construct:
  assumes "distinct (dict_keys (dunder_dict x))"
    and "distinct (dict_keys (dunder_fields (classes E (cls_name x))))"
    and "''cls'' \<notin> set (dict_keys (dunder_dict x))"
    and "''_fields_set'' \<notin> set (dict_keys (dunder_dict x))"
    and "\<forall>(k, v) \<in> set (dunder_dict x).
           round_trips E (use_enum_values (dunder_config (classes E (cls_name x)))) v"
  shows "\<exists>d m. model_dict E x None None no_flags None = Inr d \<and>
           construct_kwargs E (cls_name x) d = Inr m \<and>
           (\<forall>k v. dict_get (dunder_dict x) k = Some v \<longrightarrow>
              (\<exists>v'. dict_get (dunder_dict m) k = Some v' \<and> py_eq E v' v)) \<and>
           set (dict_keys (dunder_dict m)) \<subseteq>
             set (dict_keys (dunder_dict x)) \<union>
             set (dict_keys (dunder_fields (classes E (cls_name x))))"
proof -
  from model_dict_round_trips [OF assms(1,5)] obtain d where
    d: "model_dict E x None None no_flags None = Inr d"
    and ks: "dict_keys d = dict_keys (dunder_dict x)"
    and vs: "\<forall>k v. dict_get (dunder_dict x) k = Some v \<longrightarrow>
               (\<exists>v'. dict_get d k = Some v' \<and> eq_view E v' = eq_view E v)"
    by blast
  let ?m = "construct E (cls_name x) None d"
  from ks assms(1) have dd: "distinct (dict_keys d)" by simp
  from ks assms(3,4) have "''cls'' \<notin> set (dict_keys d)" and "dict_get d ''_fields_set'' = None"
    by (simp_all add: dict_get_None_iff)
  then have c: "construct_kwargs E (cls_name x) d = Inr ?m"
    by (simp add: construct_kwargs_def)
  have "\<forall>k v. dict_get (dunder_dict x) k = Some v \<longrightarrow>
          (\<exists>v'. dict_get (dunder_dict ?m) k = Some v' \<and> py_eq E v' v)"
  proof (intro allI impI)
    fix k v
    assume "dict_get (dunder_dict x) k = Some v"
    with vs obtain v' where v': "dict_get d k = Some v'" and e: "eq_view E v' = eq_view E v"
      by blast
    from v' have "dict_get (dunder_dict ?m) k = Some v'"
      using dd assms(2) by (simp add: dict_get_construct)
    moreover from e have "py_eq E v' v" by (rule py_eq_view)
    ultimately show "\<exists>v'. dict_get (dunder_dict ?m) k = Some v' \<and> py_eq E v' v" by blast
  qed
  moreover have "set (dict_keys (dunder_dict ?m)) \<subseteq>
      set (dict_keys (dunder_dict x)) \<union> set (dict_keys (dunder_fields (classes E (cls_name x))))"
    using dict_keys_construct [OF dd assms(2), of None] by (simp add: ks)
  ultimately show ?thesis using d c by blast
qed

lemma nested_instance_dict:
  "model_dict example_env nested_instance None None no_flags None =
     Inr [(''inner'', VSeq ListKind [VDict [(VStr ''x'', VInt 1)]]),
          (''tags'', VSeq TupleKind [VStr ''A'', VDict [(VStr ''k'', VBool True)]])]"
  by (simp add: model_dict.simps model_iter.simps no_flags_def calculate_keys_def
      nested_instance_def inner_instance_def example_env_def outer_class_def inner_class_def
      mk_field_def dict_of_def dict_update_def truthy_items_def)

lemma inner_instance_dict:
  "model_dict example_env inner_instance None None no_flags None = Inr [(''x'', VInt 1)]"
  by (simp add: model_dict.simps model_iter.simps no_flags_def calculate_keys_def
      inner_instance_def example_env_def dict_of_def dict_update_def)

lemma rooted_instance_dict:
  "model_dict example_env rooted_instance None None no_flags None = Inr [(''__root__'', VInt 5)]"
  by (simp add: model_dict.simps model_iter.simps no_flags_def calculate_keys_def
      rooted_instance_def example_env_def dict_of_def dict_update_def)

theorem project_then_construct_witness:
  "distinct (dict_keys (dunder_dict nested_instance)) \<and>
   distinct (dict_keys (dunder_fields (classes example_env (cls_name nested_instance)))) \<and>
   ''cls'' \<notin> set (dict_keys (dunder_dict nested_instance)) \<and>
   ''_fields_set'' \<notin> set (dict_keys (dunder_dict nested_instance)) \<and>
   round_trips example_env False (VSeq ListKind [VModel inner_instance]) \<and>
   model_dict example_env nested_instance None None no_flags None =
     Inr [(''inner'', VSeq ListKind [VDict [(VStr ''x'', VInt 1)]]),
          (''tags'', VSeq TupleKind [VStr ''A'', VDict [(VStr ''k'', VBool True)]])] \<and>
   dict_get (dunder_dict nested_instance) ''inner'' = Some (VSeq ListKind [VModel inner_instance]) \<and>
   (\<exists>m v'. construct_kwargs example_env ''Outer''
              [(''inner'', VSeq ListKind [VDict [(VStr ''x'', VInt 1)]]),
               (''tags'', VSeq TupleKind [VStr ''A'', VDict [(VStr ''k'', VBool True)]])] = Inr m \<and>
           dict_get (dunder_dict m) ''inner'' = Some v' \<and>
           py_eq example_env v' (VSeq ListKind [VModel inner_instance]))"
proof -
  have 1: "distinct (dict_keys (dunder_dict nested_instance))"
    by (simp add: nested_instance_def dict_keys_def)
  have 2: "distinct (dict_keys (dunder_fields (classes example_env (cls_name nested_instance))))"
    by (simp add: nested_instance_def example_env_def outer_class_def dict_keys_def)
  have 3: "''cls'' \<notin> set (dict_keys (dunder_dict nested_instance))"
    and 4: "''_fields_set'' \<notin> set (dict_keys (dunder_dict nested_instance))"
    by (simp_all add: nested_instance_def dict_keys_def)
  have r: "round_trips example_env False (VSeq ListKind [VModel inner_instance])"
    by (simp add: inner_instance_dict) (simp add: example_env_def dict_keys_def)
  have 5: "\<forall>(k, v) \<in> set (dunder_dict nested_instance).
       round_trips example_env
         (use_enum_values (dunder_config (classes example_env (cls_name nested_instance)))) v"
    using r
    by (simp add: nested_instance_def example_env_def outer_class_def default_config_def)
  have g: "dict_get (dunder_dict nested_instance) ''inner'' =
      Some (VSeq ListKind [VModel inner_instance])"
    by (simp add: nested_instance_def)
  from project_then_construct [OF 1 2 3 4 5] obtain d m where
    d: "model_dict example_env nested_instance None None no_flags None = Inr d"
    and c: "construct_kwargs example_env (cls_name nested_instance) d = Inr m"
    and v: "\<forall>k v. dict_get (dunder_dict nested_instance) k = Some v \<longrightarrow>
              (\<exists>v'. dict_get (dunder_dict m) k = Some v' \<and> py_eq example_env v' v)"
    by blast
  from d have d': "d = [(''inner'', VSeq ListKind [VDict [(VStr ''x'', VInt 1)]]),
          (''tags'', VSeq TupleKind [VStr ''A'', VDict [(VStr ''k'', VBool True)]])]"
    by (simp add: nested_instance_dict)
  from v g obtain v' where "dict_get (dunder_dict m) ''inner'' = Some v'"
    and "py_eq example_env v' (VSeq ListKind [VModel inner_instance])" by blast
  with c d' have "\<exists>m v'. construct_kwargs example_env ''Outer''
              [(''inner'', VSeq ListKind [VDict [(VStr ''x'', VInt 1)]]),
               (''tags'', VSeq TupleKind [VStr ''A'', VDict [(VStr ''k'', VBool True)]])] = Inr m \<and>
           dict_get (dunder_dict m) ''inner'' = Some v' \<and>
           py_eq example_env v' (VSeq ListKind [VModel inner_instance])"
    by (auto simp: nested_instance_def)
  with 1 2 3 4 r g nested_instance_dict show ?thesis by (intro conjI)
qed

text \<open>
  Claim C5 as stated does not hold. In a class that emits raw enumeration values the
  rebuilt instance holds \<open>1\<close> where the original holds the member \<open>Colour.RED\<close>, and
  the two are not equal. Where the original holds an instance with a custom root, the
  rebuilt one holds the value under \<open>__root__\<close>, which is not equal to that instance.
  With a key \<open>cls\<close> among the values, \<open>construct(**x.dict())\<close> raises a
  \<open>TypeError\<close>; a key \<open>_fields_set\<close> is taken as the parameter of that name, and
  the rebuilt instance has no such key.
\<close>

theorem round_trip_changes_values:
  "model_dict example_env painted_instance None None no_flags None = Inr [(''colour'', VInt 1)] \<and>
   construct_kwargs example_env ''Painted'' [(''colour'', VInt 1)] =
     Inr (Model ''Painted'' [(''colour'', VInt 1)] [''colour''] []) \<and>
   dunder_dict painted_instance = [(''colour'', VEnum ''Colour.RED'' (EnumInt 1))] \<and>
   \<not> py_eq example_env (VInt 1) (VEnum ''Colour.RED'' (EnumInt 1)) \<and>
   model_dict example_env holder_instance None None no_flags None = Inr [(''inner'', VInt 5)] \<and>
   construct_kwargs example_env ''Outer'' [(''inner'', VInt 5)] =
     Inr (Model ''Outer'' [(''inner'', VInt 5)] [''inner''] []) \<and>
   dunder_dict holder_instance = [(''inner'', VModel rooted_instance)] \<and>
   \<not> py_eq example_env (VInt 5) (VModel rooted_instance) \<and>
   model_dict example_env cls_key_instance None None no_flags None =
     Inr [(''name'', VStr ''A''), (''cls'', VInt 1)] \<and>
   construct_kwargs example_env ''Person'' [(''name'', VStr ''A''), (''cls'', VInt 1)] =
     Inl (TypeError_multiple_values ''cls'') \<and>
   model_dict example_env fields_set_key_instance None None no_flags None =
     Inr [(''name'', VStr ''A''), (''age'', VInt 0), (''_fields_set'', VNone)] \<and>
   construct_kwargs example_env ''Person''
       [(''name'', VStr ''A''), (''age'', VInt 0), (''_fields_set'', VNone)] =
     Inr (Model ''Person'' [(''name'', VStr ''A''), (''age'', VInt 0)] [''name'', ''age''] [])"
proof (intro conjI)
  show "model_dict example_env painted_instance None None no_flags None = Inr [(''colour'', VInt 1)]"
    by (simp add: model_dict.simps model_iter.simps no_flags_def calculate_keys_def
        painted_instance_def example_env_def painted_class_def default_config_def value_of_def
        dict_of_def dict_update_def)
  show "construct_kwargs example_env ''Painted'' [(''colour'', VInt 1)] =
     Inr (Model ''Painted'' [(''colour'', VInt 1)] [''colour''] [])"
    by (simp add: construct_kwargs_def construct_def construct_field_def dict_keys_def
        example_env_def painted_class_def mk_field_def dict_update_def
        init_private_attributes_def)
  show "dunder_dict painted_instance = [(''colour'', VEnum ''Colour.RED'' (EnumInt 1))]"
    by (simp add: painted_instance_def)
  show "\<not> py_eq example_env (VInt 1) (VEnum ''Colour.RED'' (EnumInt 1))"
    by (simp add: py_eq_def)
  show "model_dict example_env holder_instance None None no_flags None = Inr [(''inner'', VInt 5)]"
    by (simp add: model_dict.simps model_iter.simps no_flags_def calculate_keys_def
        holder_instance_def rooted_instance_def example_env_def
        dict_of_def dict_update_def)
  show "construct_kwargs example_env ''Outer'' [(''inner'', VInt 5)] =
     Inr (Model ''Outer'' [(''inner'', VInt 5)] [''inner''] [])"
    by (simp add: construct_kwargs_def construct_def construct_field_def dict_keys_def
        example_env_def outer_class_def mk_field_def dict_update_def
        init_private_attributes_def)
  show "dunder_dict holder_instance = [(''inner'', VModel rooted_instance)]"
    by (simp add: holder_instance_def)
  show "\<not> py_eq example_env (VInt 5) (VModel rooted_instance)"
    by (simp add: py_eq_def rooted_instance_dict)
  show "model_dict example_env cls_key_instance None None no_flags None =
     Inr [(''name'', VStr ''A''), (''cls'', VInt 1)]"
    by (simp add: model_dict.simps model_iter.simps no_flags_def calculate_keys_def
        cls_key_instance_def example_env_def dict_of_def dict_update_def)
  show "construct_kwargs example_env ''Person'' [(''name'', VStr ''A''), (''cls'', VInt 1)] =
     Inl (TypeError_multiple_values ''cls'')"
    by (simp add: construct_kwargs_def dict_keys_def)
  show "model_dict example_env fields_set_key_instance None None no_flags None =
     Inr [(''name'', VStr ''A''), (''age'', VInt 0), (''_fields_set'', VNone)]"
    by (simp add: model_dict.simps model_iter.simps no_flags_def calculate_keys_def
        fields_set_key_instance_def example_env_def dict_of_def dict_update_def)
  show "construct_kwargs example_env ''Person''
       [(''name'', VStr ''A''), (''age'', VInt 0), (''_fields_set'', VNone)] =
     Inr (Model ''Person'' [(''name'', VStr ''A''), (''age'', VInt 0)] [''name'', ''age''] [])"
    by (simp add: construct_kwargs_def construct_def construct_field_def dict_keys_def
        example_env_def person_class_def mk_field_def dict_update_def
        init_private_attributes_def)
qed

end
